theory Spec2Isabelle
  imports Complex_Main "HOL-Library.Char_ord" "HOL-Library.List_Lexorder" "HOL-Library.AList"
    "HOL-Library.Log_Nat"
begin

section \<open>Python values\<close>

text \<open>
  The tracker of \<^verbatim>\<open>src/financial_tracker.py\<close> keeps its whole state in \<^verbatim>\<open>self.data\<close>, which is
  whatever \<^verbatim>\<open>json.load\<close> returned: the code never checks its shape. The state is therefore
  modelled as a dynamically typed Python value, and every operation on it that Python can
  refuse (subscripting, iterating, adding, comparing) returns the exception it raises.

  The model follows CPython 3.11. Strings are lists of characters with code points
  below 256.
\<close>

subsection \<open>Floats\<close>

text \<open>
  A Python float is an IEEE 754 double: a finite value, an infinity or NaN. A finite
  value is kept as the rational number it is, \<open>Fin 0\<close> being the zero \<^verbatim>\<open>0.0\<close> and \<open>NZero\<close>
  the zero \<^verbatim>\<open>-0.0\<close>. Every operation that produces a float from an exact number rounds
  it to the nearest double, ties to the even mantissa, as the hardware and \<^verbatim>\<open>float\<close> do:
  \<open>flog2\<close> is the exponent of the leading bit, \<open>round_mag\<close> keeps 53 bits from there
  (fewer below \<open>2\<^sup>-\<^sup>1\<^sup>0\<^sup>2\<^sup>2\<close>) and gives an infinity from \<open>2\<^sup>1\<^sup>0\<^sup>2\<^sup>4\<close> on; the sign is kept, also
  where a negative number is rounded to zero.
\<close>

datatype pyfloat = Fin rat | NZero | PInf | NInf | NaN

definition flog2 :: "rat \<Rightarrow> int" where
  "flog2 a =
     (case quotient_of a of (n, d) \<Rightarrow>
        let k = bitlen n - bitlen d in if 2 powi k \<le> a then k else k - 1)"

definition nearest_even :: "rat \<Rightarrow> int" where
  "nearest_even x =
     (let f = \<lfloor>x\<rfloor>; r = x - of_int f
      in if r < 1 / 2 then f else if 1 / 2 < r then f + 1 else if even f then f else f + 1)"

definition round_mag :: "rat \<Rightarrow> pyfloat" where
  "round_mag a =
     (if a = 0 then Fin 0
      else
        let e = max (flog2 a) (- 1022);
            u = 2 powi (e - 52);
            r = of_int (nearest_even (a / u)) * u
        in if 2 powi 1024 \<le> r then PInf else Fin r)"

fun pneg :: "pyfloat \<Rightarrow> pyfloat" where
  "pneg (Fin q) = (if q = 0 then NZero else Fin (- q))"
| "pneg NZero = Fin 0"
| "pneg PInf = NInf"
| "pneg NInf = PInf"
| "pneg NaN = NaN"

definition round_double :: "rat \<Rightarrow> pyfloat" where
  "round_double q = (if q < 0 then pneg (round_mag (- q)) else round_mag q)"

text \<open>Float addition: the exact sum, rounded. A sum that is exactly zero is \<^verbatim>\<open>0.0\<close>, except
  that \<^verbatim>\<open>-0.0 + -0.0\<close> is \<^verbatim>\<open>-0.0\<close>.\<close>

fun padd :: "pyfloat \<Rightarrow> pyfloat \<Rightarrow> pyfloat" where
  "padd NaN y = NaN"
| "padd x NaN = NaN"
| "padd PInf NInf = NaN"
| "padd NInf PInf = NaN"
| "padd PInf y = PInf"
| "padd x PInf = PInf"
| "padd NInf y = NInf"
| "padd x NInf = NInf"
| "padd NZero y = y"
| "padd x NZero = x"
| "padd (Fin a) (Fin b) = round_double (a + b)"

text \<open>Comparisons as IEEE 754 and Python have them: every comparison with NaN is false,
  and the two zeros are equal.\<close>

fun unzero :: "pyfloat \<Rightarrow> pyfloat" where
  "unzero NZero = Fin 0"
| "unzero x = x"

fun pf_lt :: "pyfloat \<Rightarrow> pyfloat \<Rightarrow> bool" where
  "pf_lt NaN y = False"
| "pf_lt x NaN = False"
| "pf_lt x NInf = False"
| "pf_lt PInf y = False"
| "pf_lt NInf y = True"
| "pf_lt x PInf = True"
| "pf_lt (Fin a) (Fin b) = (a < b)"
| "pf_lt (Fin a) NZero = (a < 0)"
| "pf_lt NZero (Fin b) = (0 < b)"
| "pf_lt NZero NZero = False"

definition pf_le :: "pyfloat \<Rightarrow> pyfloat \<Rightarrow> bool" where
  "pf_le x y = (pf_lt x y \<or> (unzero x = unzero y \<and> x \<noteq> NaN))"

subsection \<open>Values and exceptions\<close>

text \<open>An \<^verbatim>\<open>int\<close> is unbounded; a \<^verbatim>\<open>bool\<close> counts as the \<^verbatim>\<open>int\<close> 0 or 1 in arithmetic.\<close>

datatype pyval =
    PNone
  | PBool bool
  | PInt int
  | PFloat pyfloat
  | PStr string
  | PList "pyval list"
  | PDict "(string \<times> pyval) list"

text \<open>
  The exceptions the code can meet. In Python \<^verbatim>\<open>json.JSONDecodeError\<close>,
  \<^verbatim>\<open>UnicodeDecodeError\<close> and \<^verbatim>\<open>UnicodeEncodeError\<close> are subclasses of \<^verbatim>\<open>ValueError\<close>, and
  \<^verbatim>\<open>IOError\<close> is \<^verbatim>\<open>OSError\<close>.
\<close>

datatype exn =
    ValueError string
  | JSONDecodeError
  | UnicodeDecodeError
  | UnicodeEncodeError
  | TypeError
  | KeyError
  | AttributeError
  | OSError
  | OverflowError
  | RecursionError

fun is_ValueError :: "exn \<Rightarrow> bool" where
  "is_ValueError (ValueError m) = True"
| "is_ValueError JSONDecodeError = True"
| "is_ValueError UnicodeDecodeError = True"
| "is_ValueError UnicodeEncodeError = True"
| "is_ValueError e = False"

text \<open>The three failures of the specification are the messages the code re-raises.\<close>

definition InvalidBudget :: exn where
  "InvalidBudget = ValueError ''Invalid budget value''"

definition InvalidExpense :: exn where
  "InvalidExpense = ValueError ''Invalid expense data''"

definition InvalidDateRange :: exn where
  "InvalidDateRange = ValueError ''Invalid date format''"

text \<open>
  \<^verbatim>\<open>float(n)\<close> of an \<^verbatim>\<open>int\<close>, also where an \<^verbatim>\<open>int\<close> meets a float in an addition: the
  nearest double, and \<^verbatim>\<open>OverflowError\<close> where that would be an infinity.
\<close>

definition int_to_float :: "int \<Rightarrow> exn + pyfloat" where
  "int_to_float n =
     (case round_double (of_int n) of
        PInf \<Rightarrow> Inl OverflowError
      | NInf \<Rightarrow> Inl OverflowError
      | f \<Rightarrow> Inr f)"

subsection \<open>Dynamic operations\<close>

text \<open>\<^verbatim>\<open>x[k]\<close> for a string key: only a dict has one.\<close>

fun py_getitem :: "pyval \<Rightarrow> string \<Rightarrow> exn + pyval" where
  "py_getitem (PDict kvs) k = (case map_of kvs k of None \<Rightarrow> Inl KeyError | Some v \<Rightarrow> Inr v)"
| "py_getitem x k = Inl TypeError"

text \<open>\<^verbatim>\<open>x[k] = v\<close>: a dict keeps the position of a key it has and appends a new one.\<close>

fun py_setitem :: "pyval \<Rightarrow> string \<Rightarrow> pyval \<Rightarrow> exn + pyval" where
  "py_setitem (PDict kvs) k v = Inr (PDict (AList.update k v kvs))"
| "py_setitem x k v = Inl TypeError"

text \<open>\<^verbatim>\<open>x.append(v)\<close>: only a list has the method.\<close>

fun py_append :: "pyval \<Rightarrow> pyval \<Rightarrow> exn + pyval" where
  "py_append (PList xs) v = Inr (PList (xs @ [v]))"
| "py_append x v = Inl AttributeError"

text \<open>\<^verbatim>\<open>for e in x\<close>: a list gives its elements, a string its characters, a dict its keys.\<close>

fun py_iter :: "pyval \<Rightarrow> exn + pyval list" where
  "py_iter (PList xs) = Inr xs"
| "py_iter (PStr s) = Inr (map (\<lambda>c. PStr [c]) s)"
| "py_iter (PDict kvs) = Inr (map (\<lambda>kv. PStr (fst kv)) kvs)"
| "py_iter x = Inl TypeError"

text \<open>
  \<^verbatim>\<open>acc + v\<close> where \<^verbatim>\<open>acc\<close> is the number summed so far (the code adds to nothing else):
  two \<^verbatim>\<open>int\<close>s add exactly, an \<^verbatim>\<open>int\<close> that meets a float is converted first, and anything
  that is no number is a \<^verbatim>\<open>TypeError\<close>.
\<close>

fun unbool :: "pyval \<Rightarrow> pyval" where
  "unbool (PBool b) = PInt (if b then 1 else 0)"
| "unbool x = x"

fun num_add :: "pyval \<Rightarrow> pyval \<Rightarrow> exn + pyval" where
  "num_add (PInt a) (PInt b) = Inr (PInt (a + b))"
| "num_add (PInt a) (PFloat g) =
     (case int_to_float a of Inl e \<Rightarrow> Inl e | Inr f \<Rightarrow> Inr (PFloat (padd f g)))"
| "num_add (PFloat f) (PInt b) =
     (case int_to_float b of Inl e \<Rightarrow> Inl e | Inr g \<Rightarrow> Inr (PFloat (padd f g)))"
| "num_add (PFloat f) (PFloat g) = Inr (PFloat (padd f g))"
| "num_add x y = Inl TypeError"

definition py_add :: "pyval \<Rightarrow> pyval \<Rightarrow> exn + pyval" where
  "py_add acc v = num_add (unbool acc) (unbool v)"

text \<open>\<^verbatim>\<open>not x\<close> is the negation of Python's truth value.\<close>

fun py_truthy :: "pyval \<Rightarrow> bool" where
  "py_truthy PNone = False"
| "py_truthy (PBool b) = b"
| "py_truthy (PInt n) = (n \<noteq> 0)"
| "py_truthy (PFloat f) = (unzero f \<noteq> Fin 0)"
| "py_truthy (PStr s) = (s \<noteq> [])"
| "py_truthy (PList xs) = (xs \<noteq> [])"
| "py_truthy (PDict kvs) = (kvs \<noteq> [])"

subsection \<open>Strings\<close>

text \<open>
  \<^verbatim>\<open>str.strip()\<close> removes the characters Python counts as whitespace: below code point 256
  these are 9 to 13, 28 to 31, 32, 133 and 160.
\<close>

definition is_space :: "char \<Rightarrow> bool" where
  "is_space c = (of_char c \<in> {9, 10, 11, 12, 13, 28, 29, 30, 31, 32, 133, 160 :: nat})"

definition strip :: "string \<Rightarrow> string" where
  "strip s = rev (dropWhile is_space (rev (dropWhile is_space s)))"

definition is_digit :: "char \<Rightarrow> bool" where
  "is_digit c = (CHR ''0'' \<le> c \<and> c \<le> CHR ''9'')"

definition digit_val :: "char \<Rightarrow> nat" where
  "digit_val c = of_char c - 48"

definition nat_of_digits :: "string \<Rightarrow> nat" where
  "nat_of_digits ds = foldl (\<lambda>n c. 10 * n + digit_val c) 0 ds"

definition lower :: "char \<Rightarrow> char" where
  "lower c = (if CHR ''A'' \<le> c \<and> c \<le> CHR ''Z'' then char_of (of_char c + 32 :: nat) else c)"

subsection \<open>\<^verbatim>\<open>float(x)\<close>\<close>

text \<open>
  \<^verbatim>\<open>float\<close> of a string strips whitespace (9 to 13, 32, and 133 and 160, which CPython
  turns into spaces first), reads an optional sign, and then \<^verbatim>\<open>inf\<close>, \<^verbatim>\<open>infinity\<close> or
  \<^verbatim>\<open>nan\<close> in any case, or a decimal number: digits with single underscores between them,
  an optional fraction and an optional exponent. Anything else is a \<^verbatim>\<open>ValueError\<close>.
  The number read is rounded to the nearest double: a large one becomes an infinity and
  a tiny one a zero, without an error.
\<close>

definition is_float_space :: "char \<Rightarrow> bool" where
  "is_float_space c = (of_char c \<in> {9, 10, 11, 12, 13, 32, 133, 160 :: nat})"

definition float_strip :: "string \<Rightarrow> string" where
  "float_strip s = rev (dropWhile is_float_space (rev (dropWhile is_float_space s)))"

text \<open>The rest of a digit part, after a digit: \<^verbatim>\<open>(["_"] digit)*\<close>. Returns the digits and what is left.\<close>

fun digitpart_more :: "string \<Rightarrow> string \<times> string" where
  "digitpart_more [] = ([], [])"
| "digitpart_more [c] = (if is_digit c then ([c], []) else ([], [c]))"
| "digitpart_more (c # d # r) =
     (if is_digit c then (case digitpart_more (d # r) of (ds, r') \<Rightarrow> (c # ds, r'))
      else if c = CHR ''_'' \<and> is_digit d then (case digitpart_more r of (ds, r') \<Rightarrow> (d # ds, r'))
      else ([], c # d # r))"

definition digitpart :: "string \<Rightarrow> string \<times> string" where
  "digitpart s =
     (case s of
        [] \<Rightarrow> ([], [])
      | c # r \<Rightarrow> if is_digit c then (case digitpart_more r of (ds, r') \<Rightarrow> (c # ds, r')) else ([], s))"

definition take_sign :: "string \<Rightarrow> bool \<times> string" where
  "take_sign s =
     (case s of
        [] \<Rightarrow> (False, [])
      | c # r \<Rightarrow> if c = CHR ''-'' then (True, r) else if c = CHR ''+'' then (False, r) else (False, s))"

definition parse_number :: "string \<Rightarrow> rat option" where
  "parse_number s =
     (case digitpart s of (ip, r1) \<Rightarrow>
      (case (case r1 of [] \<Rightarrow> ([], r1)
                      | c # r \<Rightarrow> if c = CHR ''.'' then digitpart r else ([], r1)) of (fp, r2) \<Rightarrow>
       if ip = [] \<and> fp = [] then None
       else
         let mant = of_nat (nat_of_digits ip) + of_nat (nat_of_digits fp) / 10 ^ length fp in
         (case r2 of
            [] \<Rightarrow> Some mant
          | c # r \<Rightarrow>
              if c = CHR ''e'' \<or> c = CHR ''E'' then
                (case take_sign r of (eneg, r3) \<Rightarrow>
                 (case digitpart r3 of (ed, r4) \<Rightarrow>
                  if ed = [] \<or> r4 \<noteq> [] then None
                  else if eneg then Some (mant / 10 ^ nat_of_digits ed)
                  else Some (mant * 10 ^ nat_of_digits ed)))
              else None)))"

definition float_of_string :: "string \<Rightarrow> pyfloat option" where
  "float_of_string s =
     (case take_sign (float_strip s) of (neg, s2) \<Rightarrow>
      let l = map lower s2 in
      if l = ''inf'' \<or> l = ''infinity'' then Some (if neg then NInf else PInf)
      else if l = ''nan'' then Some NaN
      else (case parse_number s2 of
              None \<Rightarrow> None
            | Some q \<Rightarrow> Some (if neg then pneg (round_mag q) else round_mag q)))"

fun py_float :: "pyval \<Rightarrow> exn + pyfloat" where
  "py_float (PFloat f) = Inr f"
| "py_float (PInt n) = int_to_float n"
| "py_float (PBool b) = Inr (Fin (if b then 1 else 0))"
| "py_float (PStr s) =
     (case float_of_string s of
        None \<Rightarrow> Inl (ValueError ''could not convert string to float'')
      | Some f \<Rightarrow> Inr f)"
| "py_float x = Inl TypeError"

subsection \<open>\<^verbatim>\<open>datetime.datetime.strptime(s, '%Y-%m-%d')\<close>\<close>

text \<open>
  CPython turns the format into the regular expression
  \<^verbatim>\<open>(?P<Y>\d\d\d\d)-(?P<m>1[0-2]|0[1-9]|[1-9])-(?P<d>3[0-1]|[1-2]\d|0[1-9]|[1-9]| [1-9])\<close>,
  matches it at the start of the string, and raises \<^verbatim>\<open>ValueError\<close> if nothing matches, if
  the match does not end where the string ends, or if the numbers do not name a date
  (year 1 to 9999, day within the month). So a month or a day of one digit is accepted.
  The alternatives of a group are tried in the order written.
\<close>

definition alts_m :: "string \<Rightarrow> (nat \<times> string) list" where
  "alts_m s =
     (case s of a # b # r \<Rightarrow>
        if a = CHR ''1'' \<and> CHR ''0'' \<le> b \<and> b \<le> CHR ''2'' then [(10 + digit_val b, r)] else []
      | _ \<Rightarrow> []) @
     (case s of a # b # r \<Rightarrow>
        if a = CHR ''0'' \<and> CHR ''1'' \<le> b \<and> b \<le> CHR ''9'' then [(digit_val b, r)] else []
      | _ \<Rightarrow> []) @
     (case s of a # r \<Rightarrow>
        if CHR ''1'' \<le> a \<and> a \<le> CHR ''9'' then [(digit_val a, r)] else []
      | _ \<Rightarrow> [])"

definition alts_d :: "string \<Rightarrow> (nat \<times> string) list" where
  "alts_d s =
     (case s of a # b # r \<Rightarrow>
        if a = CHR ''3'' \<and> CHR ''0'' \<le> b \<and> b \<le> CHR ''1'' then [(30 + digit_val b, r)] else []
      | _ \<Rightarrow> []) @
     (case s of a # b # r \<Rightarrow>
        if CHR ''1'' \<le> a \<and> a \<le> CHR ''2'' \<and> is_digit b then [(10 * digit_val a + digit_val b, r)] else []
      | _ \<Rightarrow> []) @
     (case s of a # b # r \<Rightarrow>
        if a = CHR ''0'' \<and> CHR ''1'' \<le> b \<and> b \<le> CHR ''9'' then [(digit_val b, r)] else []
      | _ \<Rightarrow> []) @
     (case s of a # r \<Rightarrow>
        if CHR ''1'' \<le> a \<and> a \<le> CHR ''9'' then [(digit_val a, r)] else []
      | _ \<Rightarrow> []) @
     (case s of a # b # r \<Rightarrow>
        if a = CHR '' '' \<and> CHR ''1'' \<le> b \<and> b \<le> CHR ''9'' then [(digit_val b, r)] else []
      | _ \<Rightarrow> [])"

text \<open>All the ways the expression matches a prefix, in the order the matcher finds them:
  year, month, day and the text left over.\<close>

definition regex_matches :: "string \<Rightarrow> (nat \<times> nat \<times> nat \<times> string) list" where
  "regex_matches s =
     (case s of
        y1 # y2 # y3 # y4 # dash # r \<Rightarrow>
          if is_digit y1 \<and> is_digit y2 \<and> is_digit y3 \<and> is_digit y4 \<and> dash = CHR ''-'' then
            concat (map (\<lambda>(m, r1).
              (case r1 of
                 [] \<Rightarrow> []
               | c # r2 \<Rightarrow>
                   if c = CHR ''-'' then map (\<lambda>(d, r3). (nat_of_digits [y1, y2, y3, y4], m, d, r3)) (alts_d r2)
                   else [])) (alts_m r))
          else []
      | _ \<Rightarrow> [])"

definition is_leap :: "nat \<Rightarrow> bool" where
  "is_leap y = (y mod 4 = 0 \<and> (y mod 100 \<noteq> 0 \<or> y mod 400 = 0))"

definition days_in_month :: "nat \<Rightarrow> nat \<Rightarrow> nat" where
  "days_in_month y m =
     (if m = 2 then (if is_leap y then 29 else 28)
      else if m = 4 \<or> m = 6 \<or> m = 9 \<or> m = 11 then 30 else 31)"

definition strptime :: "string \<Rightarrow> exn + (nat \<times> nat \<times> nat)" where
  "strptime s =
     (case regex_matches s of
        [] \<Rightarrow> Inl (ValueError ''time data does not match format'')
      | (y, m, d, rest) # others \<Rightarrow>
          if rest \<noteq> [] then Inl (ValueError ''unconverted data remains'')
          else if y < 1 then Inl (ValueError ''year is out of range'')
          else if days_in_month y m < d then Inl (ValueError ''day is out of range for month'')
          else Inr (y, m, d))"

text \<open>The argument must be a string: anything else is a \<^verbatim>\<open>TypeError\<close>.\<close>

fun py_strptime :: "pyval \<Rightarrow> exn + (nat \<times> nat \<times> nat)" where
  "py_strptime (PStr s) = strptime s"
| "py_strptime x = Inl TypeError"

section \<open>The tracker\<close>

text \<open>
  What \<^verbatim>\<open>self.data_file\<close> holds, as far as \<^verbatim>\<open>_load_data\<close> can tell: no file (also when
  the path is one that cannot exist), an empty file, a file that cannot be opened, bytes
  that are not UTF-8, text that is not JSON, JSON text that \<^verbatim>\<open>json.load\<close> refuses with a
  plain \<^verbatim>\<open>ValueError\<close> (an integer of more than 4300 digits) or with \<^verbatim>\<open>RecursionError\<close>
  (nesting deeper than the interpreter allows), or a JSON document. \<^verbatim>\<open>json.dump\<close> and
  \<^verbatim>\<open>json.load\<close> are library code: \<open>Document j\<close> is a file on which \<^verbatim>\<open>json.load\<close> returns
  the value \<open>j\<close>, and a \<^verbatim>\<open>json.dump\<close> that returns leaves the document of the value
  written.
\<close>

datatype file_content =
    Absent
  | Empty
  | Unreadable
  | Undecodable
  | Malformed
  | Overlong
  | TooDeep
  | Document pyval

text \<open>
  What \<^verbatim>\<open>open(self.data_file, 'w')\<close> and \<^verbatim>\<open>json.dump\<close> do with a value is the tracker's
  surroundings: the write is carried out, or an exception is raised and the file is left
  with some content. \<^verbatim>\<open>open\<close> raises \<^verbatim>\<open>OSError\<close> where the file cannot be created, and
  \<^verbatim>\<open>ValueError\<close> for a path with a NUL character; writing text that UTF-8 cannot encode (a
  lone surrogate) raises \<^verbatim>\<open>UnicodeEncodeError\<close> and leaves a truncated file; \<^verbatim>\<open>json.dump\<close>
  raises \<^verbatim>\<open>ValueError\<close> on an integer of more than 4300 digits. The tracker carries this
  behaviour as the function \<open>medium\<close>.
\<close>

datatype save_outcome = Written | Fails exn file_content

record tracker =
  data :: pyval
  disk :: file_content
  medium :: "pyval \<Rightarrow> save_outcome"

definition default_data :: pyval where
  "default_data = PDict [(''budget'', PFloat (Fin 0)), (''expenses'', PList [])]"

text \<open>The body of the \<^verbatim>\<open>try\<close> in \<^verbatim>\<open>_load_data\<close>, and the handler around it, which
  catches \<^verbatim>\<open>json.JSONDecodeError\<close> and \<^verbatim>\<open>IOError\<close> only.\<close>

definition load_body :: "tracker \<Rightarrow> exn + tracker" where
  "load_body t =
     (case disk t of
        Absent \<Rightarrow> Inr t
      | Empty \<Rightarrow> Inr t
      | Unreadable \<Rightarrow> Inl OSError
      | Undecodable \<Rightarrow> Inl UnicodeDecodeError
      | Malformed \<Rightarrow> Inl JSONDecodeError
      | Overlong \<Rightarrow> Inl (ValueError ''Exceeds the limit (4300 digits) for integer string conversion'')
      | TooDeep \<Rightarrow> Inl RecursionError
      | Document j \<Rightarrow> Inr (t\<lparr>data := j\<rparr>))"

definition load_data :: "tracker \<Rightarrow> exn + tracker" where
  "load_data t =
     (case load_body t of
        Inl e \<Rightarrow> if e = JSONDecodeError \<or> e = OSError then Inr (t\<lparr>data := default_data\<rparr>) else Inl e
      | Inr t' \<Rightarrow> Inr t')"

text \<open>\<^verbatim>\<open>FinancialTracker(data_file)\<close>, for a file with content \<open>c\<close> in surroundings \<open>w\<close>.\<close>

definition init :: "file_content \<Rightarrow> (pyval \<Rightarrow> save_outcome) \<Rightarrow> exn + tracker" where
  "init c w = load_data \<lparr>data = default_data, disk = c, medium = w\<rparr>"

definition save_data :: "tracker \<Rightarrow> (exn + unit) \<times> tracker" where
  "save_data t =
     (case medium t (data t) of
        Written \<Rightarrow> (Inr (), t\<lparr>disk := Document (data t)\<rparr>)
      | Fails e c \<Rightarrow> (Inl e, t\<lparr>disk := c\<rparr>))"

text \<open>The state of the tracker can be written as it is.\<close>

definition writable :: "tracker \<Rightarrow> bool" where
  "writable t = (medium t (data t) = Written)"

subsection \<open>\<^verbatim>\<open>set_budget\<close>\<close>

text \<open>Every operation returns what the call returns or raises, and the tracker after it.\<close>

definition set_budget_body :: "tracker \<Rightarrow> pyval \<Rightarrow> (exn + bool) \<times> tracker" where
  "set_budget_body t budget =
     (case py_float budget of
        Inl e \<Rightarrow> (Inl e, t)
      | Inr budget_float \<Rightarrow>
          if pf_lt budget_float (Fin 0) then (Inl (ValueError ''Budget cannot be negative''), t)
          else
            (case py_setitem (data t) ''budget'' (PFloat budget_float) of
               Inl e \<Rightarrow> (Inl e, t)
             | Inr d \<Rightarrow>
                 (case save_data (t\<lparr>data := d\<rparr>) of
                    (Inl e, t') \<Rightarrow> (Inl e, t')
                  | (Inr u, t') \<Rightarrow> (Inr True, t'))))"

definition set_budget :: "tracker \<Rightarrow> pyval \<Rightarrow> (exn + bool) \<times> tracker" where
  "set_budget t budget =
     (case set_budget_body t budget of
        (Inl e, t') \<Rightarrow> if is_ValueError e \<or> e = TypeError then (Inl InvalidBudget, t') else (Inl e, t')
      | (Inr b, t') \<Rightarrow> (Inr b, t'))"

subsection \<open>\<^verbatim>\<open>add_expense\<close>\<close>

fun py_strip :: "pyval \<Rightarrow> exn + pyval" where
  "py_strip (PStr s) = Inr (PStr (strip s))"
| "py_strip x = Inl AttributeError"

text \<open>
  \<open>today\<close> is \<^verbatim>\<open>datetime.date.today().isoformat()\<close>. The list of expenses is changed in
  place by \<^verbatim>\<open>append\<close>; in the model the changed list is put back under its key.
\<close>

definition add_expense_body :: "string \<Rightarrow> tracker \<Rightarrow> pyval \<Rightarrow> pyval \<Rightarrow> pyval \<Rightarrow> (exn + bool) \<times> tracker" where
  "add_expense_body today t amount category date =
     (case py_float amount of
        Inl e \<Rightarrow> (Inl e, t)
      | Inr amount_float \<Rightarrow>
          if pf_le amount_float (Fin 0) then (Inl (ValueError ''Amount must be positive''), t)
          else if \<not> py_truthy category then (Inl (ValueError ''Category cannot be empty''), t)
          else
            (case py_strip category of
               Inl e \<Rightarrow> (Inl e, t)
             | Inr stripped \<Rightarrow>
                 if \<not> py_truthy stripped then (Inl (ValueError ''Category cannot be empty''), t)
                 else
                   (case (if date = PNone then Inr (PStr today)
                          else (case py_strptime date of Inl e \<Rightarrow> Inl e | Inr parsed \<Rightarrow> Inr date)) of
                      Inl e \<Rightarrow> (Inl e, t)
                    | Inr expense_date \<Rightarrow>
                        let expense = PDict [(''amount'', PFloat amount_float),
                                             (''category'', stripped),
                                             (''date'', expense_date)] in
                        (case py_getitem (data t) ''expenses'' of
                           Inl e \<Rightarrow> (Inl e, t)
                         | Inr l \<Rightarrow>
                             (case py_append l expense of
                                Inl e \<Rightarrow> (Inl e, t)
                              | Inr l' \<Rightarrow>
                                  (case py_setitem (data t) ''expenses'' l' of
                                     Inl e \<Rightarrow> (Inl e, t)
                                   | Inr d \<Rightarrow>
                                       (case save_data (t\<lparr>data := d\<rparr>) of
                                          (Inl e, t') \<Rightarrow> (Inl e, t')
                                        | (Inr u, t') \<Rightarrow> (Inr True, t'))))))))"

text \<open>The handler of \<^verbatim>\<open>add_expense\<close> catches \<^verbatim>\<open>ValueError\<close> only.\<close>

definition add_expense :: "string \<Rightarrow> tracker \<Rightarrow> pyval \<Rightarrow> pyval \<Rightarrow> pyval \<Rightarrow> (exn + bool) \<times> tracker" where
  "add_expense today t amount category date =
     (case add_expense_body today t amount category date of
        (Inl e, t') \<Rightarrow> if is_ValueError e then (Inl InvalidExpense, t') else (Inl e, t')
      | (Inr b, t') \<Rightarrow> (Inr b, t'))"

subsection \<open>Queries\<close>

text \<open>
  \<^verbatim>\<open>sum(expense["amount"] for expense in es)\<close>, from what is summed so far (the \<^verbatim>\<open>int\<close> 0
  at the start). \<^verbatim>\<open>sum\<close> adds from the left, one item after the other.
\<close>

fun sum_amounts :: "pyval \<Rightarrow> pyval list \<Rightarrow> exn + pyval" where
  "sum_amounts acc [] = Inr acc"
| "sum_amounts acc (expense # es) =
     (case py_getitem expense ''amount'' of
        Inl e \<Rightarrow> Inl e
      | Inr a \<Rightarrow> (case py_add acc a of Inl e \<Rightarrow> Inl e | Inr acc' \<Rightarrow> sum_amounts acc' es))"

definition get_total_spent :: "tracker \<Rightarrow> exn + pyval" where
  "get_total_spent t =
     (case py_getitem (data t) ''expenses'' of
        Inl e \<Rightarrow> Inl e
      | Inr v \<Rightarrow> (case py_iter v of Inl e \<Rightarrow> Inl e | Inr es \<Rightarrow> sum_amounts (PInt 0) es))"

text \<open>
  The dict \<^verbatim>\<open>categories\<close>: its keys are whatever \<^verbatim>\<open>expense["category"]\<close> is. A list or a
  dict is not hashable (\<^verbatim>\<open>TypeError\<close>); keys that are equal numbers, such as \<^verbatim>\<open>True\<close>, \<^verbatim>\<open>1\<close>
  and \<^verbatim>\<open>1.0\<close>, are the same key. The
  entries are kept in insertion order, as a Python dict keeps them.
\<close>

fun hashable :: "pyval \<Rightarrow> bool" where
  "hashable (PList xs) = False"
| "hashable (PDict kvs) = False"
| "hashable x = True"

fun key_norm :: "pyval \<Rightarrow> pyval" where
  "key_norm (PBool b) = PInt (if b then 1 else 0)"
| "key_norm (PFloat (Fin q)) = (if of_int \<lfloor>q\<rfloor> = q then PInt \<lfloor>q\<rfloor> else PFloat (Fin q))"
| "key_norm (PFloat NZero) = PInt 0"
| "key_norm x = x"

text \<open>\<^verbatim>\<open>categories.get(k, 0)\<close>\<close>

fun dict_get :: "(pyval \<times> pyval) list \<Rightarrow> pyval \<Rightarrow> pyval" where
  "dict_get [] k = PInt 0"
| "dict_get ((k', v') # r) k = (if key_norm k' = key_norm k then v' else dict_get r k)"

text \<open>\<^verbatim>\<open>categories[k] = v\<close>\<close>

fun dict_set :: "(pyval \<times> pyval) list \<Rightarrow> pyval \<Rightarrow> pyval \<Rightarrow> (pyval \<times> pyval) list" where
  "dict_set [] k v = [(k, v)]"
| "dict_set ((k', v') # r) k v =
     (if key_norm k' = key_norm k then (k', v) # r else (k', v') # dict_set r k v)"

fun category_loop :: "(pyval \<times> pyval) list \<Rightarrow> pyval list \<Rightarrow> exn + (pyval \<times> pyval) list" where
  "category_loop categories [] = Inr categories"
| "category_loop categories (expense # es) =
     (case py_getitem expense ''category'' of
        Inl e \<Rightarrow> Inl e
      | Inr category \<Rightarrow>
          if \<not> hashable category then Inl TypeError
          else
            (case py_getitem expense ''amount'' of
               Inl e \<Rightarrow> Inl e
             | Inr a \<Rightarrow>
                 (case py_add (dict_get categories category) a of
                    Inl e \<Rightarrow> Inl e
                  | Inr v \<Rightarrow> category_loop (dict_set categories category v) es)))"

definition get_category_stats :: "tracker \<Rightarrow> exn + (pyval \<times> pyval) list" where
  "get_category_stats t =
     (case py_getitem (data t) ''expenses'' of
        Inl e \<Rightarrow> Inl e
      | Inr v \<Rightarrow> (case py_iter v of Inl e \<Rightarrow> Inl e | Inr es \<Rightarrow> category_loop [] es))"

text \<open>
  \<^verbatim>\<open>a <= b\<close> and \<^verbatim>\<open>a > b\<close> where one side is a string, as in \<^verbatim>\<open>get_period_stats\<close> (whose
  arguments have passed \<^verbatim>\<open>strptime\<close>): two strings compare by code points, lexicographically,
  and a string against anything else is a \<^verbatim>\<open>TypeError\<close>.
\<close>

fun py_le :: "pyval \<Rightarrow> pyval \<Rightarrow> exn + bool" where
  "py_le (PStr a) (PStr b) = Inr (a \<le> b)"
| "py_le x y = Inl TypeError"

fun py_gt :: "pyval \<Rightarrow> pyval \<Rightarrow> exn + bool" where
  "py_gt (PStr a) (PStr b) = Inr (b < a)"
| "py_gt x y = Inl TypeError"

text \<open>The list comprehension: \<^verbatim>\<open>start_date <= expense["date"] <= end_date\<close> looks the date
  up once and compares it with the end only if the first comparison holds.\<close>

fun period_filter :: "pyval \<Rightarrow> pyval \<Rightarrow> pyval list \<Rightarrow> exn + pyval list" where
  "period_filter start_date end_date [] = Inr []"
| "period_filter start_date end_date (expense # es) =
     (case py_getitem expense ''date'' of
        Inl e \<Rightarrow> Inl e
      | Inr d \<Rightarrow>
          (case py_le start_date d of
             Inl e \<Rightarrow> Inl e
           | Inr b1 \<Rightarrow>
               (case (if b1 then py_le d end_date else Inr False) of
                  Inl e \<Rightarrow> Inl e
                | Inr b2 \<Rightarrow>
                    (case period_filter start_date end_date es of
                       Inl e \<Rightarrow> Inl e
                     | Inr r \<Rightarrow> Inr (if b2 then expense # r else r)))))"

text \<open>The result is the pair \<^verbatim>\<open>(total_spent, expense_count)\<close>.\<close>

definition get_period_stats_body :: "tracker \<Rightarrow> pyval \<Rightarrow> pyval \<Rightarrow> exn + (pyval \<times> nat)" where
  "get_period_stats_body t start_date end_date =
     (case py_strptime start_date of
        Inl e \<Rightarrow> Inl e
      | Inr p1 \<Rightarrow>
          (case py_strptime end_date of
             Inl e \<Rightarrow> Inl e
           | Inr p2 \<Rightarrow>
               (case py_gt start_date end_date of
                  Inl e \<Rightarrow> Inl e
                | Inr after \<Rightarrow>
                    if after then Inl (ValueError ''Start date cannot be after end date'')
                    else
                      (case py_getitem (data t) ''expenses'' of
                         Inl e \<Rightarrow> Inl e
                       | Inr v \<Rightarrow>
                           (case py_iter v of
                              Inl e \<Rightarrow> Inl e
                            | Inr es \<Rightarrow>
                                (case period_filter start_date end_date es of
                                   Inl e \<Rightarrow> Inl e
                                 | Inr period_expenses \<Rightarrow>
                                     (case sum_amounts (PInt 0) period_expenses of
                                        Inl e \<Rightarrow> Inl e
                                      | Inr total_period \<Rightarrow>
                                          Inr (total_period, length period_expenses))))))))"

definition get_period_stats :: "tracker \<Rightarrow> pyval \<Rightarrow> pyval \<Rightarrow> exn + (pyval \<times> nat)" where
  "get_period_stats t start_date end_date =
     (case get_period_stats_body t start_date end_date of
        Inl e \<Rightarrow> if is_ValueError e then Inl InvalidDateRange else Inl e
      | Inr r \<Rightarrow> Inr r)"

subsection \<open>The helpers\<close>

definition validate_amount :: "pyval \<Rightarrow> exn + (bool \<times> pyval)" where
  "validate_amount amount_str =
     (case py_float amount_str of
        Inl e \<Rightarrow> if is_ValueError e then Inr (False, PInt 0) else Inl e
      | Inr amount \<Rightarrow>
          Inr (if pf_le (Fin 0) amount then (True, PFloat amount) else (False, PInt 0)))"

definition validate_date :: "pyval \<Rightarrow> exn + bool" where
  "validate_date date_str =
     (case py_strptime date_str of
        Inl e \<Rightarrow> if is_ValueError e then Inr False else Inl e
      | Inr parsed \<Rightarrow> Inr True)"

section \<open>Sequences of calls\<close>

text \<open>
  A caller holds one tracker and calls \<^verbatim>\<open>set_budget\<close> and \<^verbatim>\<open>add_expense\<close> on it, catching what
  they raise. \<open>perform\<close> is the tracker after one call, returned or raised, and \<open>run\<close> the
  tracker after a list of calls. An \<^verbatim>\<open>add_expense\<close> call carries the date of the day it is made.
\<close>

datatype call = SetBudget pyval | AddExpense string pyval pyval pyval

fun perform :: "tracker \<Rightarrow> call \<Rightarrow> tracker" where
  "perform t (SetBudget v) = snd (set_budget t v)"
| "perform t (AddExpense today amount category date) = snd (add_expense today t amount category date)"

definition run :: "tracker \<Rightarrow> call list \<Rightarrow> tracker" where
  "run t calls = foldl perform t calls"

text \<open>The budget field is a number and is not below 0 (it may be NaN).\<close>

definition budget_not_negative :: "tracker \<Rightarrow> bool" where
  "budget_not_negative t =
     (case py_getitem (data t) ''budget'' of
        Inr (PFloat f) \<Rightarrow> \<not> pf_lt f (Fin 0)
      | Inr (PInt n) \<Rightarrow> 0 \<le> n
      | other \<Rightarrow> False)"

section \<open>Notions of the specification\<close>

text \<open>
  An expense as the specification describes it and as \<^verbatim>\<open>add_expense\<close> builds it: a dict
  with a float amount, a string category and a string date (other keys, and any order of
  the keys, are allowed).
\<close>

fun holds_float :: "exn + pyval \<Rightarrow> bool" where
  "holds_float (Inr (PFloat a)) = True"
| "holds_float r = False"

fun holds_str :: "exn + pyval \<Rightarrow> bool" where
  "holds_str (Inr (PStr s)) = True"
| "holds_str r = False"

definition is_expense :: "pyval \<Rightarrow> bool" where
  "is_expense e =
     (holds_float (py_getitem e ''amount'')
      \<and> holds_str (py_getitem e ''category'')
      \<and> holds_str (py_getitem e ''date''))"

definition amount_of :: "pyval \<Rightarrow> pyfloat" where
  "amount_of e = (case py_getitem e ''amount'' of Inr (PFloat a) \<Rightarrow> a | other \<Rightarrow> Fin 0)"

definition category_of :: "pyval \<Rightarrow> pyval" where
  "category_of e = (case py_getitem e ''category'' of Inr c \<Rightarrow> c | other \<Rightarrow> PNone)"

definition date_of :: "pyval \<Rightarrow> string" where
  "date_of e = (case py_getitem e ''date'' of Inr (PStr d) \<Rightarrow> d | other \<Rightarrow> [])"

text \<open>The entry that \<^verbatim>\<open>add_expense\<close> builds from an amount converted to \<open>f\<close>, a category
  string and a date (today's date when none is given).\<close>

definition new_expense :: "string \<Rightarrow> pyfloat \<Rightarrow> string \<Rightarrow> pyval \<Rightarrow> pyval" where
  "new_expense today f c date =
     PDict [(''amount'', PFloat f), (''category'', PStr (strip c)),
            (''date'', if date = PNone then PStr today else date)]"

text \<open>The distinct elements of a list, in the order in which each first occurs.\<close>

definition first_seen :: "'a list \<Rightarrow> 'a list" where
  "first_seen xs = foldl (\<lambda>acc x. if x \<in> set acc then acc else acc @ [x]) [] xs"

text \<open>
  The sum of floats as Python computes it from the \<^verbatim>\<open>int\<close> 0: the first float is added to
  0.0, each further one to the rounded sum so far; with no float at all it is the
  \<^verbatim>\<open>int\<close> 0.
\<close>

fun float_sum :: "pyfloat list \<Rightarrow> pyval" where
  "float_sum [] = PInt 0"
| "float_sum (a # as) = PFloat (foldl padd (padd (Fin 0) a) as)"

text \<open>The sum of the amounts of the expenses of one category, added in the order of the list.\<close>

definition category_total :: "pyval list \<Rightarrow> pyval \<Rightarrow> pyval" where
  "category_total es c = float_sum (map amount_of (filter (\<lambda>e. category_of e = c) es))"

text \<open>\<^verbatim>\<open>sum(values)\<close> for a list of values, from the \<^verbatim>\<open>int\<close> 0.\<close>

fun py_sum :: "pyval \<Rightarrow> pyval list \<Rightarrow> exn + pyval" where
  "py_sum acc [] = Inr acc"
| "py_sum acc (v # vs) = (case py_add acc v of Inl e \<Rightarrow> Inl e | Inr acc' \<Rightarrow> py_sum acc' vs)"

text \<open>A float that holds a whole number, and the size of a finite float.\<close>

fun whole :: "pyfloat \<Rightarrow> bool" where
  "whole (Fin q) = (of_int \<lfloor>q\<rfloor> = q)"
| "whole NZero = True"
| "whole f = False"

fun magnitude :: "pyfloat \<Rightarrow> int" where
  "magnitude (Fin q) = \<bar>\<lfloor>q\<rfloor>\<bar>"
| "magnitude f = 0"

text \<open>
  A ledger with a budget of 1000 and three expenses, two of them for food, in
  surroundings where every write is carried out.
\<close>

definition sample_expenses :: "pyval list" where
  "sample_expenses =
     [PDict [(''amount'', PFloat (Fin 50)), (''category'', PStr ''Food''), (''date'', PStr ''2024-01-15'')],
      PDict [(''amount'', PFloat (Fin 30)), (''category'', PStr ''Transport''), (''date'', PStr ''2024-01-16'')],
      PDict [(''amount'', PFloat (Fin 20)), (''category'', PStr ''Food''), (''date'', PStr ''2024-02-01'')]]"

definition sample_tracker :: tracker where
  "sample_tracker =
     \<lparr>data = PDict [(''budget'', PFloat (Fin 1000)), (''expenses'', PList sample_expenses)],
      disk = Document (PDict [(''budget'', PFloat (Fin 1000)), (''expenses'', PList sample_expenses)]),
      medium = (\<lambda>v. Written)\<rparr>"

text \<open>A fresh tracker: no file yet, and every write is carried out.\<close>

definition fresh_tracker :: tracker where
  "fresh_tracker = \<lparr>data = default_data, disk = Absent, medium = (\<lambda>v. Written)\<rparr>"

text \<open>
  Dates as \<^verbatim>\<open>datetime.date.isoformat()\<close> writes them: four digits, two digits, two digits.
  \<open>date_le\<close> is the chronological order of dates given as year, month and day.
\<close>

definition digit_char :: "nat \<Rightarrow> char" where
  "digit_char n = ''0123456789'' ! n"

definition pad2 :: "nat \<Rightarrow> string" where
  "pad2 n = [digit_char (n div 10), digit_char (n mod 10)]"

definition pad4 :: "nat \<Rightarrow> string" where
  "pad4 n = pad2 (n div 100) @ pad2 (n mod 100)"

fun isoformat :: "nat \<times> nat \<times> nat \<Rightarrow> string" where
  "isoformat (y, m, d) = pad4 y @ CHR ''-'' # pad2 m @ CHR ''-'' # pad2 d"

fun valid_date :: "nat \<times> nat \<times> nat \<Rightarrow> bool" where
  "valid_date (y, m, d) = (1 \<le> y \<and> y \<le> 9999 \<and> 1 \<le> m \<and> m \<le> 12 \<and> 1 \<le> d \<and> d \<le> days_in_month y m)"

fun date_le :: "nat \<times> nat \<times> nat \<Rightarrow> nat \<times> nat \<times> nat \<Rightarrow> bool" where
  "date_le (y1, m1, d1) (y2, m2, d2) = (y1 < y2 \<or> (y1 = y2 \<and> (m1 < m2 \<or> (m1 = m2 \<and> d1 \<le> d2))))"

text \<open>
  A string in the form \<^verbatim>\<open>YYYY-MM-DD\<close> that names a real calendar date: ten characters,
  digits and two hyphens, the year from 1 to 9999, the day within the month.
\<close>

definition is_iso_date :: "string \<Rightarrow> bool" where
  "is_iso_date s =
     (case s of
        [y1, y2, y3, y4, c1, m1, m2, c2, d1, d2] \<Rightarrow>
          is_digit y1 \<and> is_digit y2 \<and> is_digit y3 \<and> is_digit y4 \<and> c1 = CHR ''-''
          \<and> is_digit m1 \<and> is_digit m2 \<and> c2 = CHR ''-'' \<and> is_digit d1 \<and> is_digit d2
          \<and> valid_date (nat_of_digits [y1, y2, y3, y4], nat_of_digits [m1, m2], nat_of_digits [d1, d2])
      | other \<Rightarrow> False)"

text \<open>The expenses whose date string lies between two strings, in the order of strings.\<close>

definition in_period :: "string \<Rightarrow> string \<Rightarrow> pyval \<Rightarrow> bool" where
  "in_period s e x = (s \<le> date_of x \<and> date_of x \<le> e)"


section \<open>Properties\<close>

subsection \<open>Rounding to a double\<close>
lemma pow2_pos [simp]: "0 < (2::rat) powi k"
  by (rule zero_less_power_int) simp

lemma pow2_less: "k < l \<Longrightarrow> (2::rat) powi k < 2 powi l"
  by (rule power_int_strict_increasing) simp_all

lemma pow2_le: "k \<le> l \<Longrightarrow> (2::rat) powi k \<le> 2 powi l"
  by (rule power_int_increasing) simp_all

lemma pow2_add: "(2::rat) powi (k + l) = 2 powi k * 2 powi l"
  by (rule power_int_add) simp

lemma pow2_diff: "(2::rat) powi (k - l) = 2 powi k / 2 powi l"
  by (rule power_int_diff) simp

lemma pow2_of_int: "0 \<le> k \<Longrightarrow> (2::rat) powi k = of_int (2 ^ nat k)"
  by (simp add: power_int_def)

lemma bitlen_rat_bounds:
  assumes "0 < n"
  shows "(2::rat) powi (bitlen n - 1) \<le> of_int n" and "of_int n < (2::rat) powi bitlen n"
proof -
  from assms have b1: "1 \<le> bitlen n" by (auto simp: bitlen_alt_def)
  from bitlen_bounds [OF assms] have lo: "2 ^ nat (bitlen n - 1) \<le> n" and hi: "n < 2 ^ nat (bitlen n)"
    by simp_all
  from lo have "(of_int (2 ^ nat (bitlen n - 1)) :: rat) \<le> of_int n"
    by (simp only: of_int_le_iff)
  with b1 show "(2::rat) powi (bitlen n - 1) \<le> of_int n"
    by (simp add: pow2_of_int)
  from hi have "(of_int n :: rat) < of_int (2 ^ nat (bitlen n))"
    by (simp only: of_int_less_iff)
  with b1 show "of_int n < (2::rat) powi bitlen n"
    by (simp add: pow2_of_int)
qed

lemma flog2_bounds:
  assumes "0 < a"
  shows "2 powi flog2 a \<le> a" and "a < 2 powi (flog2 a + 1)"
proof -
  obtain n d where q: "quotient_of a = (n, d)" by (cases "quotient_of a")
  then have d: "0 < d" by (rule quotient_of_denom_pos)
  from q have a: "a = of_int n / of_int d" by (rule quotient_of_div)
  with assms d have n: "0 < n" by (simp add: zero_less_divide_iff)
  let ?k = "bitlen n - bitlen d"
  from d have dr: "(0::rat) < of_int d" by simp
  have "a < (2::rat) powi bitlen n / 2 powi (bitlen d - 1)"
  proof -
    have "a \<le> of_int n / (2::rat) powi (bitlen d - 1)"
      unfolding a using n
      by (intro divide_left_mono [OF bitlen_rat_bounds(1) [OF d]]) (simp_all add: d mult_pos_pos)
    also have "\<dots> < 2 powi bitlen n / 2 powi (bitlen d - 1)"
      using bitlen_rat_bounds(2) [OF n] by (simp add: divide_strict_right_mono)
    finally show ?thesis .
  qed
  then have up: "a < 2 powi (?k + 1)"
    by (simp add: pow2_diff [symmetric] algebra_simps)
  have "(2::rat) powi (bitlen n - 1) / 2 powi bitlen d < a"
  proof -
    have "(2::rat) powi (bitlen n - 1) / 2 powi bitlen d < 2 powi (bitlen n - 1) / of_int d"
      by (rule divide_strict_left_mono [OF bitlen_rat_bounds(2) [OF d]])
        (simp_all add: d mult_pos_pos)
    also have "\<dots> \<le> a"
      unfolding a using bitlen_rat_bounds(1) [OF n] dr by (simp add: divide_right_mono)
    finally show ?thesis .
  qed
  then have lo: "2 powi (?k - 1) < a"
    by (simp add: pow2_diff [symmetric] algebra_simps)
  show "2 powi flog2 a \<le> a"
    using lo by (simp add: flog2_def q Let_def)
  show "a < 2 powi (flog2 a + 1)"
    using up by (simp add: flog2_def q Let_def not_le)
qed

lemma flog2_eqI:
  assumes "2 powi e \<le> a" and "a < 2 powi (e + 1)"
  shows "flog2 a = e"
proof -
  have "0 < (2::rat) powi e" by simp
  with assms(1) have pos: "0 < a" by linarith
  note b = flog2_bounds [OF pos]
  have "\<not> flog2 a < e"
  proof
    assume "flog2 a < e"
    then have "flog2 a + 1 \<le> e" by simp
    then have "(2::rat) powi (flog2 a + 1) \<le> 2 powi e" by (rule pow2_le)
    with b(2) assms(1) show False by linarith
  qed
  moreover have "\<not> e < flog2 a"
  proof
    assume "e < flog2 a"
    then have "e + 1 \<le> flog2 a" by simp
    then have "(2::rat) powi (e + 1) \<le> 2 powi flog2 a" by (rule pow2_le)
    with b(1) assms(2) show False by linarith
  qed
  ultimately show ?thesis by simp
qed

lemma nearest_even_of_int [simp]: "nearest_even (of_int z) = z"
  by (simp add: nearest_even_def)


lemma round_mag_exact:
  assumes "0 < a" and "a / 2 powi (max (flog2 a) (- 1022) - 52) = of_int z" and "a < 2 powi 1024"
  shows "round_mag a = Fin a"
proof -
  let ?u = "(2::rat) powi (max (flog2 a) (- 1022) - 52)"
  have u: "0 < ?u" by simp
  from assms(2) u have "of_int z * ?u = a"
    by (metis less_irrefl nonzero_divide_eq_eq)
  with assms show ?thesis
    by (simp add: round_mag_def Let_def not_le)
qed

lemma round_mag_grid:
  assumes m: "0 < m" "m \<le> 2 ^ 53" and j: "- 1074 \<le> j" "j \<le> 970"
  shows "round_mag (of_int m * 2 powi j) = Fin (of_int m * 2 powi j)"
proof -
  let ?a = "of_int m * (2::rat) powi j"
  let ?E = "max (flog2 ?a) (- 1022)"
  from m have mr: "(0::rat) < of_int m" by simp
  have pos: "0 < ?a" using mr by (simp add: mult_pos_pos)
  note b = flog2_bounds [OF pos]
  from m(2) have "(of_int m :: rat) \<le> of_int (2 ^ 53)" by (simp only: of_int_le_iff)
  then have m53: "(of_int m :: rat) \<le> 2 powi 53" by simp
  have "?a \<le> 2 powi 53 * 2 powi j"
    using m53 by (intro mult_right_mono) simp_all
  also have "\<dots> = 2 powi (53 + j)" by (simp add: pow2_add)
  also have "\<dots> < 2 powi 1024" using j by (intro pow2_less) simp
  finally have small: "?a < 2 powi 1024" .
  have "\<exists>z. ?a / 2 powi (?E - 52) = of_int z"
  proof (cases "m = 2 ^ 53")
    case True
    then have "(of_int m :: rat) = of_int (2 ^ 53)" by simp
    then have a: "?a = 2 powi (53 + j)" by (simp add: pow2_add)
    have "flog2 ?a = 53 + j"
      unfolding a by (rule flog2_eqI) (simp_all add: pow2_less)
    with j have E: "?E = 53 + j" by simp
    have "?a / 2 powi (?E - 52) = 2 powi ((53 + j) - (?E - 52))"
      unfolding a by (simp only: pow2_diff)
    also have "\<dots> = 2 powi 52" by (simp add: E)
    also have "\<dots> = of_int (2 ^ 52)" by simp
    finally show ?thesis by blast
  next
    case False
    with m have "m < 2 ^ 53" by simp
    then have "(of_int m :: rat) < of_int (2 ^ 53)" by (simp only: of_int_less_iff)
    then have "(of_int m :: rat) < 2 powi 53" by simp
    then have "?a < 2 powi 53 * 2 powi j"
      by (intro mult_strict_right_mono) simp_all
    then have lt: "?a < 2 powi (53 + j)" by (simp add: pow2_add)
    have "flog2 ?a < 53 + j"
    proof (rule ccontr)
      assume "\<not> flog2 ?a < 53 + j"
      then have "53 + j \<le> flog2 ?a" by simp
      then have "(2::rat) powi (53 + j) \<le> 2 powi flog2 ?a" by (rule pow2_le)
      with b(1) lt show False by linarith
    qed
    with j have k: "0 \<le> j - (?E - 52)" by simp
    have "?a / 2 powi (?E - 52) = of_int m * 2 powi (j - (?E - 52))"
      by (simp only: pow2_diff times_divide_eq_right)
    also have "\<dots> = of_int m * of_int (2 ^ nat (j - (?E - 52)))"
      by (simp only: pow2_of_int [OF k])
    also have "\<dots> = of_int (m * 2 ^ nat (j - (?E - 52)))" by simp
    finally show ?thesis by blast
  qed
  then obtain z where "?a / 2 powi (?E - 52) = of_int z" ..
  from round_mag_exact [OF pos this small] show ?thesis .
qed

lemma round_mag_whole:
  assumes "0 < n" and "n \<le> 2 ^ 53"
  shows "round_mag (of_int n) = Fin (of_int n)"
  using round_mag_grid [OF assms, of 0] by simp

lemma round_double_whole:
  assumes "\<bar>n\<bar> \<le> 2 ^ 53"
  shows "round_double (of_int n) = Fin (of_int n)"
proof -
  consider "n = 0" | "0 < n" | "n < 0" by linarith
  then show ?thesis
  proof cases
    case 1
    then show ?thesis by (simp add: round_double_def round_mag_def)
  next
    case 2
    with assms show ?thesis by (simp add: round_double_def round_mag_whole)
  next
    case 3
    with assms have "round_mag (of_int (- n)) = Fin (of_int (- n))"
      by (intro round_mag_whole) simp_all
    with 3 show ?thesis by (simp add: round_double_def)
  qed
qed

lemma round_mag_eval:
  assumes "2 powi e \<le> a" and "a < 2 powi (e + 1)" and "- 1022 \<le> e"
  shows "round_mag a =
    (let r = of_int (nearest_even (a / 2 powi (e - 52))) * 2 powi (e - 52)
     in if 2 powi 1024 \<le> r then PInf else Fin r)"
proof -
  have "0 < (2::rat) powi e" by simp
  with assms(1) have pos: "0 < a" by linarith
  from flog2_eqI [OF assms(1,2)] assms(3) have "max (flog2 a) (- 1022) = e" by simp
  with pos show ?thesis by (simp add: round_mag_def Let_def)
qed


lemma nearest_even_fraction:
  assumes "0 < d"
  shows "nearest_even (of_int n / of_int d) =
    (if 2 * (n mod d) < d then n div d
     else if d < 2 * (n mod d) then n div d + 1
     else if even (n div d) then n div d else n div d + 1)"
proof -
  from assms have dr: "(0::rat) < of_int d" by simp
  have f: "\<lfloor>(of_int n :: rat) / of_int d\<rfloor> = n div d" by (rule floor_divide_of_int_eq)
  have e: "n div d * d + n mod d = n" by simp
  have "(of_int n :: rat) = of_int (n div d) * of_int d + of_int (n mod d)"
    unfolding of_int_mult [symmetric] of_int_add [symmetric] e ..
  then have "(of_int n :: rat) / of_int d = (of_int (n div d) * of_int d + of_int (n mod d)) / of_int d"
    by (rule arg_cong)
  also have "\<dots> = of_int (n div d) + of_int (n mod d) / of_int d"
    using dr by (simp add: add_divide_distrib)
  finally have "(of_int n :: rat) / of_int d = of_int (n div d) + of_int (n mod d) / of_int d" .
  then have r: "(of_int n :: rat) / of_int d - of_int (n div d) = of_int (n mod d) / of_int d"
    by simp
  have lt: "(of_int (n mod d) / of_int d < (1::rat) / 2) = (2 * (n mod d) < d)"
  proof -
    have "(of_int (n mod d) / of_int d < (1::rat) / 2) = ((of_int (2 * (n mod d)) :: rat) < of_int d)"
      using dr by (simp add: field_simps)
    then show ?thesis by (simp only: of_int_less_iff)
  qed
  have gt: "((1::rat) / 2 < of_int (n mod d) / of_int d) = (d < 2 * (n mod d))"
  proof -
    have "((1::rat) / 2 < of_int (n mod d) / of_int d) = ((of_int d :: rat) < of_int (2 * (n mod d)))"
      using dr by (simp add: field_simps)
    then show ?thesis by (simp only: of_int_less_iff)
  qed
  show ?thesis
    unfolding nearest_even_def Let_def f r lt gt ..
qed

lemma nearest_even_numeral_fraction:
  "nearest_even (numeral a / numeral b) =
    (if 2 * (numeral a mod numeral b) < (numeral b :: int) then numeral a div numeral b
     else if (numeral b :: int) < 2 * (numeral a mod numeral b) then numeral a div numeral b + 1
     else if even (numeral a div numeral b :: int) then numeral a div numeral b
     else numeral a div numeral b + 1)"
  using nearest_even_fraction [of "numeral b" "numeral a"] by simp

lemma nearest_even_numeral: "nearest_even (numeral a) = numeral a"
  using nearest_even_of_int [of "numeral a"] by simp


lemma round_mag_tiny:
  assumes "0 < a" and "a < 2 powi (- 1022)"
  shows "round_mag a = Fin (of_int (nearest_even (a / 2 powi (- 1074))) * 2 powi (- 1074))"
proof -
  note b = flog2_bounds [OF assms(1)]
  have "flog2 a < - 1022"
  proof (rule ccontr)
    assume "\<not> flog2 a < - 1022"
    then have "- 1022 \<le> flog2 a" by simp
    then have "(2::rat) powi (- 1022) \<le> 2 powi flog2 a" by (rule pow2_le)
    with b(1) assms(2) show False by linarith
  qed
  then have E: "max (flog2 a) (- 1022) - 52 = - 1074" by simp
  let ?x = "a / 2 powi (- 1074)"
  have "?x < 2 powi (- 1022) / 2 powi (- 1074)"
    using assms(2) by (intro divide_strict_right_mono) simp_all
  also have "\<dots> = 2 powi 52" by (simp only: pow2_diff [symmetric]) simp
  finally have lt: "?x < of_int (2 ^ 52)" by simp
  then have fl: "\<lfloor>?x\<rfloor> < 2 ^ 52" by (simp only: floor_less_iff)
  have "nearest_even ?x \<le> \<lfloor>?x\<rfloor> + 1"
    by (simp add: nearest_even_def Let_def)
  with fl have ne: "nearest_even ?x \<le> 2 ^ 52" by linarith
  then have "(of_int (nearest_even ?x) :: rat) \<le> of_int (2 ^ 52)" by (simp only: of_int_le_iff)
  then have "of_int (nearest_even ?x) * 2 powi (- 1074) \<le> of_int (2 ^ 52) * (2::rat) powi (- 1074)"
    by (intro mult_right_mono) simp_all
  also have "\<dots> = 2 powi 52 * 2 powi (- 1074)" by simp
  also have "\<dots> = 2 powi (- 1022)" by (simp only: pow2_add [symmetric]) simp
  also have "\<dots> < (2::rat) powi 1024" by (intro pow2_less) simp
  finally have "of_int (nearest_even ?x) * 2 powi (- 1074) < (2::rat) powi 1024" .
  then have big: "\<not> (2::rat) powi 1024 \<le> of_int (nearest_even ?x) * 2 powi (- 1074)"
    by (simp only: not_le)
  from assms(1) have "a \<noteq> 0" by simp
  then show ?thesis
    unfolding round_mag_def Let_def E using big by (simp only: if_False)
qed

subsection \<open>Shared facts\<close>

lemma is_ValueError_Invalid [simp]:
  "is_ValueError InvalidBudget" "is_ValueError InvalidExpense" "is_ValueError InvalidDateRange"
  by (simp_all add: InvalidBudget_def InvalidExpense_def InvalidDateRange_def)

lemma round_double_0 [simp]: "round_double 0 = Fin 0"
  by (simp add: round_double_def round_mag_def)

lemma int_to_float_whole: "\<bar>n\<bar> \<le> 2 ^ 53 \<Longrightarrow> int_to_float n = Inr (Fin (of_int n))"
  by (simp add: int_to_float_def round_double_whole)

lemma int_to_float_0 [simp]: "int_to_float 0 = Inr (Fin 0)"
  by (simp add: int_to_float_def)

lemma int_to_float_error: "int_to_float n = Inl e \<Longrightarrow> e = OverflowError"
  by (auto simp: int_to_float_def split: pyfloat.splits)

lemma py_float_error: "py_float v = Inl e \<Longrightarrow> is_ValueError e \<or> e = TypeError \<or> e = OverflowError"
  by (cases v) (auto split: option.splits dest: int_to_float_error)

lemma map_of_update_same: "map_of (AList.update k v kvs) k = Some v"
  by (simp add: update_conv')

lemma map_of_update_other: "k' \<noteq> k \<Longrightarrow> map_of (AList.update k v kvs) k' = map_of kvs k'"
  by (simp add: update_conv')

text \<open>\<^verbatim>\<open>float\<close> of a string that holds a number.\<close>

lemma float_of_string_number:
  assumes "take_sign (float_strip s) = (neg, s2)"
    and "map lower s2 \<noteq> ''inf''" and "map lower s2 \<noteq> ''infinity''" and "map lower s2 \<noteq> ''nan''"
    and "parse_number s2 = Some q"
  shows "float_of_string s = Some (if neg then pneg (round_mag q) else round_mag q)"
  using assms by (simp add: float_of_string_def Let_def)

lemma float_of_string_0: "float_of_string ''0'' = Some (Fin 0)"
proof -
  have "take_sign (float_strip ''0'') = (False, ''0'')" "map lower ''0'' \<noteq> ''inf''"
    "map lower ''0'' \<noteq> ''infinity''" "map lower ''0'' \<noteq> ''nan''" "parse_number ''0'' = Some 0"
    by code_simp+
  from float_of_string_number [OF this] show ?thesis by (simp add: round_mag_def)
qed

subsection \<open>The helper \<^verbatim>\<open>validate_amount\<close>\<close>

text \<open>
  C9. \<^verbatim>\<open>validate_amount\<close> never raises on a string: it returns \<^verbatim>\<open>(True, value)\<close> exactly
  when \<^verbatim>\<open>float\<close> parses the string to a value that is at least 0, and \<^verbatim>\<open>(False, 0)\<close>
  otherwise. On \<^verbatim>\<open>"0"\<close> it returns \<^verbatim>\<open>(True, 0.0)\<close>, while \<^verbatim>\<open>add_expense\<close> with the amount
  \<^verbatim>\<open>0.0\<close> or \<^verbatim>\<open>0\<close> fails with \<open>InvalidExpense\<close> for every category, date and ledger, and
  leaves the ledger as it was.
\<close>

theorem validate_amount_total:
  "validate_amount (PStr s) =
     Inr (case float_of_string s of
            None \<Rightarrow> (False, PInt 0)
          | Some v \<Rightarrow> if pf_le (Fin 0) v then (True, PFloat v) else (False, PInt 0))
   \<and> validate_amount (PStr ''0'') = Inr (True, PFloat (Fin 0))
   \<and> fst (add_expense today t (PFloat (Fin 0)) category date) = Inl InvalidExpense
   \<and> snd (add_expense today t (PFloat (Fin 0)) category date) = t
   \<and> fst (add_expense today t (PInt 0) category date) = Inl InvalidExpense
   \<and> snd (add_expense today t (PInt 0) category date) = t"
proof -
  have a: "validate_amount (PStr s) =
     Inr (case float_of_string s of
            None \<Rightarrow> (False, PInt 0)
          | Some v \<Rightarrow> if pf_le (Fin 0) v then (True, PFloat v) else (False, PInt 0))"
    by (simp add: validate_amount_def split: option.splits)
  have b: "validate_amount (PStr ''0'') = Inr (True, PFloat (Fin 0))"
    by (simp add: validate_amount_def float_of_string_0 pf_le_def)
  have c: "add_expense today t (PFloat (Fin 0)) category date = (Inl InvalidExpense, t)"
    by (simp add: add_expense_def add_expense_body_def pf_le_def)
  have d: "add_expense today t (PInt 0) category date = (Inl InvalidExpense, t)"
    by (simp add: add_expense_def add_expense_body_def pf_le_def)
  from a b c d show ?thesis by simp
qed

subsection \<open>\<^verbatim>\<open>set_budget\<close>\<close>

lemma set_budget_refused:
  assumes "case py_float v of Inl e \<Rightarrow> True | Inr f \<Rightarrow> pf_lt f (Fin 0)"
  shows "set_budget t v =
    (Inl (if py_float v = Inl OverflowError then OverflowError else InvalidBudget), t)"
proof (cases "py_float v")
  case (Inl e)
  with py_float_error [OF Inl] show ?thesis
    by (auto simp: set_budget_def set_budget_body_def)
next
  case (Inr f)
  with assms show ?thesis
    by (simp add: set_budget_def set_budget_body_def)
qed

lemma set_budget_accepted:
  assumes "data t = PDict kvs" and "py_float v = Inr f" and "\<not> pf_lt f (Fin 0)"
  shows "set_budget t v =
    (case medium t (PDict (AList.update ''budget'' (PFloat f) kvs)) of
       Written \<Rightarrow>
         (Inr True, t\<lparr>data := PDict (AList.update ''budget'' (PFloat f) kvs),
                      disk := Document (PDict (AList.update ''budget'' (PFloat f) kvs))\<rparr>)
     | Fails e c \<Rightarrow>
         (Inl (if is_ValueError e \<or> e = TypeError then InvalidBudget else e),
          t\<lparr>data := PDict (AList.update ''budget'' (PFloat f) kvs), disk := c\<rparr>))"
  using assms
  by (simp add: set_budget_def set_budget_body_def save_data_def split: save_outcome.splits)

text \<open>
  C1, as the code has it. For a ledger whose state is a JSON object, \<^verbatim>\<open>set_budget(v)\<close>
  fails with \<open>InvalidBudget\<close> exactly when \<^verbatim>\<open>float(v)\<close> raises \<^verbatim>\<open>ValueError\<close> or \<^verbatim>\<open>TypeError\<close>,
  or gives a value below 0, or the value is accepted and writing the new state raises
  \<^verbatim>\<open>ValueError\<close> or \<^verbatim>\<open>TypeError\<close>; an infinity that is not negative and NaN are accepted.
  Whenever the value is refused, the tracker is unchanged. When the value is accepted
  and the write is carried out, the call returns \<^verbatim>\<open>True\<close>, the budget is \<^verbatim>\<open>float(v)\<close>, the
  expenses are as before and the file holds the new state. When the value is accepted and
  the write fails, the budget in memory is \<^verbatim>\<open>float(v)\<close> all the same.
\<close>

theorem set_budget_spec:
  "data t = PDict kvs \<Longrightarrow>
   ((fst (set_budget t v) = Inl InvalidBudget)
      = (case py_float v of
           Inl e \<Rightarrow> is_ValueError e \<or> e = TypeError
         | Inr f \<Rightarrow>
             pf_lt f (Fin 0)
             \<or> (case medium t (PDict (AList.update ''budget'' (PFloat f) kvs)) of
                  Written \<Rightarrow> False
                | Fails e c \<Rightarrow> is_ValueError e \<or> e = TypeError)))
   \<and> ((case py_float v of Inl e \<Rightarrow> True | Inr f \<Rightarrow> pf_lt f (Fin 0)) \<longrightarrow> snd (set_budget t v) = t)
   \<and> (\<forall>f. py_float v = Inr f \<and> \<not> pf_lt f (Fin 0) \<longrightarrow>
         py_getitem (data (snd (set_budget t v))) ''budget'' = Inr (PFloat f)
         \<and> py_getitem (data (snd (set_budget t v))) ''expenses'' = py_getitem (data t) ''expenses''
         \<and> (medium t (PDict (AList.update ''budget'' (PFloat f) kvs)) = Written \<longrightarrow>
              fst (set_budget t v) = Inr True
              \<and> disk (snd (set_budget t v)) = Document (data (snd (set_budget t v)))))"
proof -
  assume d: "data t = PDict kvs"
  show ?thesis
  proof (cases "case py_float v of Inl e \<Rightarrow> True | Inr f \<Rightarrow> pf_lt f (Fin 0)")
    case True
    note r = set_budget_refused [OF True, of t]
    show ?thesis
    proof (cases "py_float v")
      case (Inl e)
      with py_float_error [OF Inl] show ?thesis
        unfolding r by (auto simp: InvalidBudget_def)
    next
      case (Inr f)
      with True show ?thesis
        unfolding r by simp
    qed
  next
    case False
    then obtain f where f: "py_float v = Inr f" "\<not> pf_lt f (Fin 0)"
      by (cases "py_float v") auto
    note a = set_budget_accepted [OF d f]
    show ?thesis
    proof (cases "medium t (PDict (AList.update ''budget'' (PFloat f) kvs))")
      case Written
      with f d show ?thesis
        unfolding a by (simp add: map_of_update_same map_of_update_other)
    next
      case (Fails e c)
      with f d show ?thesis
        unfolding a by (auto simp: map_of_update_same map_of_update_other InvalidBudget_def)
    qed
  qed
qed

text \<open>The theorem at a negative number, at a string that is no number, and at 1000.\<close>

theorem set_budget_spec_witness:
  "fst (set_budget fresh_tracker (PFloat (Fin (- 1)))) = Inl InvalidBudget
   \<and> snd (set_budget fresh_tracker (PFloat (Fin (- 1)))) = fresh_tracker
   \<and> fst (set_budget fresh_tracker (PStr ''invalid'')) = Inl InvalidBudget
   \<and> fst (set_budget fresh_tracker (PFloat (Fin 1000))) = Inr True
   \<and> py_getitem (data (snd (set_budget fresh_tracker (PFloat (Fin 1000))))) ''budget''
       = Inr (PFloat (Fin 1000))"
proof -
  have d: "data fresh_tracker = PDict [(''budget'', PFloat (Fin 0)), (''expenses'', PList [])]"
    by (simp add: fresh_tracker_def default_data_def)
  have m: "medium fresh_tracker x = Written" for x
    by (simp add: fresh_tracker_def)
  have f: "float_of_string ''invalid'' = None" by code_simp
  show ?thesis
    using set_budget_spec [OF d, of "PFloat (Fin (- 1))"] set_budget_spec [OF d, of "PStr ''invalid''"]
      set_budget_spec [OF d, of "PFloat (Fin 1000)"]
    by (simp add: f m)
qed

text \<open>
  C1 as stated fails. Positive infinity is not a finite number, yet \<^verbatim>\<open>set_budget\<close> of it
  on a fresh ledger returns \<^verbatim>\<open>True\<close> and stores it; so does NaN. And where the file cannot
  be written because its path holds a NUL character, \<^verbatim>\<open>open\<close> raises \<^verbatim>\<open>ValueError\<close> inside the
  \<^verbatim>\<open>try\<close>: \<^verbatim>\<open>set_budget(5.0)\<close> then fails with \<open>InvalidBudget\<close> although 5.0 is a valid budget,
  and the budget in memory is 5.0 after the failure.
\<close>

theorem set_budget_accepts_infinity:
  "fst (set_budget fresh_tracker (PFloat PInf)) = Inr True
   \<and> py_getitem (data (snd (set_budget fresh_tracker (PFloat PInf)))) ''budget'' = Inr (PFloat PInf)
   \<and> fst (set_budget fresh_tracker (PFloat NaN)) = Inr True
   \<and> fst (set_budget \<lparr>data = default_data, disk = Absent,
                       medium = (\<lambda>v. Fails (ValueError ''embedded null byte'') Absent)\<rparr>
            (PFloat (Fin 5))) = Inl InvalidBudget
   \<and> py_getitem (data (snd (set_budget \<lparr>data = default_data, disk = Absent,
                       medium = (\<lambda>v. Fails (ValueError ''embedded null byte'') Absent)\<rparr>
            (PFloat (Fin 5))))) ''budget'' = Inr (PFloat (Fin 5))"
  by (simp add: set_budget_def set_budget_body_def save_data_def default_data_def fresh_tracker_def)

subsection \<open>Construction\<close>

text \<open>
  C2, as the code has it. For every content of the file on which \<^verbatim>\<open>json.load\<close> returns or
  raises \<^verbatim>\<open>JSONDecodeError\<close>, and for a missing, empty or unreadable file, constructing the
  tracker succeeds: a missing, empty, unreadable or non-JSON file gives the default
  state, and a JSON document gives that document as the state, whatever its shape.
\<close>

theorem init_spec:
  "c \<noteq> Undecodable \<Longrightarrow> c \<noteq> Overlong \<Longrightarrow> c \<noteq> TooDeep \<Longrightarrow>
   init c w = Inr \<lparr>data = (case c of Document j \<Rightarrow> j | other \<Rightarrow> default_data), disk = c, medium = w\<rparr>"
  by (cases c) (simp_all add: init_def load_data_def load_body_def)

theorem init_spec_witness:
  "init Absent (\<lambda>v. Written) = Inr \<lparr>data = default_data, disk = Absent, medium = (\<lambda>v. Written)\<rparr>
   \<and> init Empty (\<lambda>v. Written) = Inr \<lparr>data = default_data, disk = Empty, medium = (\<lambda>v. Written)\<rparr>
   \<and> init Malformed (\<lambda>v. Written) = Inr \<lparr>data = default_data, disk = Malformed, medium = (\<lambda>v. Written)\<rparr>
   \<and> init (Document (PDict [(''budget'', PFloat (Fin 7)), (''expenses'', PList [])])) (\<lambda>v. Written)
       = Inr \<lparr>data = PDict [(''budget'', PFloat (Fin 7)), (''expenses'', PList [])],
              disk = Document (PDict [(''budget'', PFloat (Fin 7)), (''expenses'', PList [])]),
              medium = (\<lambda>v. Written)\<rparr>"
  using init_spec [of Absent "\<lambda>v. Written"] init_spec [of Empty "\<lambda>v. Written"]
    init_spec [of Malformed "\<lambda>v. Written"]
    init_spec [of "Document (PDict [(''budget'', PFloat (Fin 7)), (''expenses'', PList [])])" "\<lambda>v. Written"]
  by simp

text \<open>
  C2 as stated fails: the documents \<^verbatim>\<open>{}\<close> and \<^verbatim>\<open>[1]\<close> do not have the shape of a ledger,
  and the constructed state is the document, not the default state.
\<close>

theorem init_keeps_any_document:
  "init (Document (PDict [])) (\<lambda>v. Written)
     = Inr \<lparr>data = PDict [], disk = Document (PDict []), medium = (\<lambda>v. Written)\<rparr>
   \<and> PDict [] \<noteq> default_data
   \<and> init (Document (PList [PInt 1])) (\<lambda>v. Written)
       = Inr \<lparr>data = PList [PInt 1], disk = Document (PList [PInt 1]), medium = (\<lambda>v. Written)\<rparr>
   \<and> PList [PInt 1] \<noteq> default_data"
  by (simp add: init_def load_data_def load_body_def default_data_def)

text \<open>
  On three contents construction fails, because the handler names \<^verbatim>\<open>JSONDecodeError\<close> and
  \<^verbatim>\<open>IOError\<close> only: bytes that are not UTF-8 (\<^verbatim>\<open>UnicodeDecodeError\<close>), an integer of more
  than 4300 digits (a plain \<^verbatim>\<open>ValueError\<close>) and nesting too deep for the parser
  (\<^verbatim>\<open>RecursionError\<close>); the comment of the handler says that a corrupted file gives fresh
  data.
\<close>

lemma init_fails:
  "init Undecodable w = Inl UnicodeDecodeError
   \<and> init Overlong w = Inl (ValueError ''Exceeds the limit (4300 digits) for integer string conversion'')
   \<and> init TooDeep w = Inl RecursionError"
  by (simp add: init_def load_data_def load_body_def)

subsection \<open>Dates in ISO form\<close>

lemma less_10_cases:
  "k < 10 \<Longrightarrow> k = 0 \<or> k = 1 \<or> k = 2 \<or> k = 3 \<or> k = 4 \<or> k = 5 \<or> k = 6 \<or> k = 7 \<or> k = 8 \<or> k = (9::nat)"
  by arith

lemma of_char_digit_char: "k < 10 \<Longrightarrow> of_char (digit_char k) = (48 + k :: nat)"
  by (drule less_10_cases) (auto simp: digit_char_def)

lemma digit_char_less: "i < 10 \<Longrightarrow> j < 10 \<Longrightarrow> (digit_char i < digit_char j) = (i < j)"
  by (simp add: less_char_def of_char_digit_char)

lemma digit_char_eq: "i < 10 \<Longrightarrow> j < 10 \<Longrightarrow> (digit_char i = digit_char j) = (i = j)"
proof -
  assume "i < 10" "j < 10"
  then have "(of_char (digit_char i) = (of_char (digit_char j) :: nat)) = (i = j)"
    by (simp add: of_char_digit_char)
  then show ?thesis by simp
qed

lemma is_digit_digit_char: "k < 10 \<Longrightarrow> is_digit (digit_char k)"
  by (simp add: is_digit_def less_eq_char_def of_char_digit_char)

lemma digit_val_digit_char: "k < 10 \<Longrightarrow> digit_val (digit_char k) = k"
  by (simp add: digit_val_def of_char_digit_char)

text \<open>Strings of padded numbers compare as the numbers do.\<close>

lemma split_less:
  fixes a b n :: nat
  assumes "0 < n"
  shows "(a < b) = (a div n < b div n \<or> (a div n = b div n \<and> a mod n < b mod n))"
proof -
  have a: "a = a div n * n + a mod n" and b: "b = b div n * n + b mod n" by simp_all
  have ra: "a mod n < n" and rb: "b mod n < n" using assms by simp_all
  show ?thesis
  proof (cases "a div n < b div n")
    case True
    then have "a div n + 1 \<le> b div n" by simp
    then have "(a div n + 1) * n \<le> b div n * n" by (rule mult_le_mono1)
    then have "a div n * n + n \<le> b div n * n" by (simp add: algebra_simps)
    with ra have "a div n * n + a mod n < b div n * n + b mod n" by linarith
    with True show ?thesis by simp
  next
    case False
    show ?thesis
    proof (cases "a div n = b div n")
      case True
      then have "(a < b) = (a mod n < b mod n)"
        by (metis a b nat_add_left_cancel_less)
      with True show ?thesis by simp
    next
      case ne: False
      with False have "b div n < a div n" by simp
      then have "b div n + 1 \<le> a div n" by simp
      then have "(b div n + 1) * n \<le> a div n * n" by (rule mult_le_mono1)
      then have "b div n * n + n \<le> a div n * n" by (simp add: algebra_simps)
      with rb have "b div n * n + b mod n < a div n * n + a mod n" by linarith
      then have "\<not> a < b" by simp
      with False ne show ?thesis by simp
    qed
  qed
qed

lemma split_eq:
  fixes a b n :: nat
  shows "(a = b) = (a div n = b div n \<and> a mod n = b mod n)"
  by (metis div_mult_mod_eq)

lemma pad2_less:
  assumes "a < 100" and "b < 100"
  shows "(pad2 a @ r < pad2 b @ r') = (a < b \<or> (a = b \<and> r < r'))"
proof -
  from assms have d: "a div 10 < 10" "a mod 10 < 10" "b div 10 < 10" "b mod 10 < 10" by auto
  have "(pad2 a @ r < pad2 b @ r')
      = (a div 10 < b div 10 \<or> (a div 10 = b div 10
          \<and> (a mod 10 < b mod 10 \<or> (a mod 10 = b mod 10 \<and> r < r'))))"
    by (simp add: pad2_def digit_char_less [OF d(1) d(3)] digit_char_less [OF d(2) d(4)]
        digit_char_eq [OF d(1) d(3)] digit_char_eq [OF d(2) d(4)])
  also have "\<dots> = (a < b \<or> (a = b \<and> r < r'))"
    using split_less [of 10 a b, OF zero_less_numeral] split_eq [of a b 10] by blast
  finally show ?thesis .
qed

lemma pad4_less:
  assumes "a < 10000" and "b < 10000"
  shows "(pad4 a @ r < pad4 b @ r') = (a < b \<or> (a = b \<and> r < r'))"
proof -
  from assms have d: "a div 100 < 100" "a mod 100 < 100" "b div 100 < 100" "b mod 100 < 100" by auto
  have "(pad4 a @ r < pad4 b @ r')
      = (a div 100 < b div 100 \<or> (a div 100 = b div 100
          \<and> (a mod 100 < b mod 100 \<or> (a mod 100 = b mod 100 \<and> r < r'))))"
    by (simp add: pad4_def pad2_less [OF d(1) d(3)] pad2_less [OF d(2) d(4)])
  also have "\<dots> = (a < b \<or> (a = b \<and> r < r'))"
    using split_less [of 100 a b, OF zero_less_numeral] split_eq [of a b 100] by blast
  finally show ?thesis .
qed

lemma isoformat_less:
  assumes "valid_date (y1, m1, d1)" and "valid_date (y2, m2, d2)"
  shows "(isoformat (y1, m1, d1) < isoformat (y2, m2, d2))
     = (y1 < y2 \<or> (y1 = y2 \<and> (m1 < m2 \<or> (m1 = m2 \<and> d1 < d2))))"
proof -
  have dm: "days_in_month y m \<le> 31" for y m by (simp add: days_in_month_def)
  from assms dm [of y1 m1] dm [of y2 m2]
  have b: "y1 < 10000" "y2 < 10000" "m1 < 100" "m2 < 100" "d1 < 100" "d2 < 100" by auto
  have "(pad2 d1 < pad2 d2) = (d1 < d2)"
    using pad2_less [OF b(5) b(6), of "[]" "[]"] by simp
  then show ?thesis
    by (simp add: pad4_less [OF b(1) b(2)] pad2_less [OF b(3) b(4)])
qed


text \<open>\<^verbatim>\<open>strptime\<close> reads back what \<^verbatim>\<open>isoformat\<close> writes.\<close>

lemma month_cases:
  "1 \<le> m \<Longrightarrow> m \<le> 12 \<Longrightarrow>
   m = 1 \<or> m = 2 \<or> m = 3 \<or> m = 4 \<or> m = 5 \<or> m = 6 \<or> m = 7 \<or> m = 8 \<or> m = 9 \<or> m = 10
   \<or> m = 11 \<or> m = (12::nat)"
  by arith

lemma day_cases:
  "1 \<le> d \<Longrightarrow> d \<le> 31 \<Longrightarrow>
   d = 1 \<or> d = 2 \<or> d = 3 \<or> d = 4 \<or> d = 5 \<or> d = 6 \<or> d = 7 \<or> d = 8 \<or> d = 9 \<or> d = 10
   \<or> d = 11 \<or> d = 12 \<or> d = 13 \<or> d = 14 \<or> d = 15 \<or> d = 16 \<or> d = 17 \<or> d = 18 \<or> d = 19
   \<or> d = 20 \<or> d = 21 \<or> d = 22 \<or> d = 23 \<or> d = 24 \<or> d = 25 \<or> d = 26 \<or> d = 27 \<or> d = 28
   \<or> d = 29 \<or> d = 30 \<or> d = (31::nat)"
  by arith

lemma alts_m_pad2:
  assumes "1 \<le> m" and "m \<le> 12"
  shows "concat (map (\<lambda>(m', r1). (case r1 of [] \<Rightarrow> [] | c # r2 \<Rightarrow> if c = CHR ''-'' then F m' r2 else []))
           (alts_m (pad2 m @ CHR ''-'' # rest))) = F m rest"
  using month_cases [OF assms]
  by (elim disjE) (simp_all add: pad2_def digit_char_def alts_m_def digit_val_def)

lemma alts_d_pad2:
  assumes "1 \<le> d" and "d \<le> 31"
  shows "\<exists>others. alts_d (pad2 d) = (d, []) # others"
  using day_cases [OF assms]
  by (elim disjE) (simp_all add: pad2_def digit_char_def alts_d_def digit_val_def is_digit_def)

lemma nat_of_digits_pad4: "y < 10000 \<Longrightarrow> nat_of_digits (pad4 y) = y"
proof -
  assume "y < 10000"
  then have d: "y div 100 div 10 < 10" "y div 100 mod 10 < 10" "y mod 100 div 10 < 10" "y mod 100 mod 10 < 10"
    by auto
  have "nat_of_digits (pad4 y)
      = 10 * (10 * (10 * (y div 100 div 10) + y div 100 mod 10) + y mod 100 div 10) + y mod 100 mod 10"
    by (simp add: nat_of_digits_def pad4_def pad2_def digit_val_digit_char d)
  also have "\<dots> = 100 * (y div 100) + y mod 100"
    by (simp add: algebra_simps)
  finally show ?thesis by simp
qed


lemma strptime_isoformat:
  assumes "valid_date (y, m, d)"
  shows "strptime (isoformat (y, m, d)) = Inr (y, m, d)"
proof -
  from assms have y: "1 \<le> y" "y < 10000" and m: "1 \<le> m" "m \<le> 12"
    and d: "1 \<le> d" "d \<le> days_in_month y m"
    by auto
  have "days_in_month y m \<le> 31" by (simp add: days_in_month_def)
  with d have d31: "d \<le> 31" by simp
  from alts_d_pad2 [OF d(1) d31] obtain others where o: "alts_d (pad2 d) = (d, []) # others"
    by blast
  from y(2) have g: "y div 100 div 10 < 10" "y div 100 mod 10 < 10" "y mod 100 div 10 < 10"
    "y mod 100 mod 10 < 10"
    by auto
  have n: "nat_of_digits [digit_char (y div 100 div 10), digit_char (y div 100 mod 10),
      digit_char (y mod 100 div 10), digit_char (y mod 100 mod 10)] = y"
    using nat_of_digits_pad4 [OF y(2)] by (simp add: pad4_def pad2_def)
  have "regex_matches (isoformat (y, m, d)) = map (\<lambda>(d', r3). (y, m, d', r3)) (alts_d (pad2 d))"
    by (simp add: regex_matches_def pad4_def pad2_def [of "y div 100"] pad2_def [of "y mod 100"]
        is_digit_digit_char g n alts_m_pad2 [OF m])
  then have "regex_matches (isoformat (y, m, d))
      = (y, m, d, []) # map (\<lambda>(d', r3). (y, m, d', r3)) others"
    by (simp add: o)
  with y(1) d(2) show ?thesis
    by (simp add: strptime_def)
qed

lemma isoformat_le:
  assumes "valid_date a" and "valid_date b"
  shows "(isoformat a \<le> isoformat b) = date_le a b"
proof -
  obtain y1 m1 d1 where a: "a = (y1, m1, d1)" by (cases a)
  obtain y2 m2 d2 where b: "b = (y2, m2, d2)" by (cases b)
  have "(isoformat a = isoformat b) = (a = b)"
  proof
    assume "isoformat a = isoformat b"
    then have "strptime (isoformat a) = strptime (isoformat b)" by simp
    moreover have "strptime (isoformat a) = Inr a"
      using assms(1) unfolding a by (rule strptime_isoformat)
    moreover have "strptime (isoformat b) = Inr b"
      using assms(2) unfolding b by (rule strptime_isoformat)
    ultimately show "a = b" by simp
  qed simp
  with isoformat_less [OF assms [unfolded a b]] show ?thesis
    unfolding list_le_def a b by auto
qed

text \<open>A string in ISO form is what \<^verbatim>\<open>isoformat\<close> writes for the date it names.\<close>

lemma is_digit_digit_val:
  assumes "is_digit c"
  shows "digit_val c < 10" and "digit_char (digit_val c) = c"
proof -
  from assms have b: "48 \<le> (of_char c :: nat)" "(of_char c :: nat) \<le> 57"
    by (simp_all add: is_digit_def less_eq_char_def)
  then show k: "digit_val c < 10" by (simp add: digit_val_def)
  from b have "(of_char (digit_char (digit_val c)) :: nat) = of_char c"
    by (simp add: of_char_digit_char [OF k]) (simp add: digit_val_def)
  then show "digit_char (digit_val c) = c" by (simp only: of_char_eq_iff)
qed

lemma pad2_digits:
  assumes "is_digit a" and "is_digit b"
  shows "pad2 (nat_of_digits [a, b]) = [a, b]"
proof -
  note da = is_digit_digit_val [OF assms(1)] and db = is_digit_digit_val [OF assms(2)]
  have n: "nat_of_digits [a, b] = 10 * digit_val a + digit_val b"
    by (simp add: nat_of_digits_def)
  from da(1) db(1) have "(10 * digit_val a + digit_val b) div 10 = digit_val a"
    "(10 * digit_val a + digit_val b) mod 10 = digit_val b"
    by simp_all
  then show ?thesis
    by (simp add: pad2_def n da(2) db(2))
qed

lemma pad4_digits:
  assumes "is_digit a" and "is_digit b" and "is_digit c" and "is_digit d"
  shows "pad4 (nat_of_digits [a, b, c, d]) = [a, b, c, d]"
proof -
  note da = is_digit_digit_val [OF assms(1)] and db = is_digit_digit_val [OF assms(2)]
    and dc = is_digit_digit_val [OF assms(3)] and dd = is_digit_digit_val [OF assms(4)]
  have n: "nat_of_digits [a, b, c, d]
      = 100 * nat_of_digits [a, b] + nat_of_digits [c, d]"
    by (simp add: nat_of_digits_def)
  have lo: "nat_of_digits [c, d] < 100"
    using dc(1) dd(1) by (simp add: nat_of_digits_def)
  from lo have "(100 * nat_of_digits [a, b] + nat_of_digits [c, d]) div 100 = nat_of_digits [a, b]"
    "(100 * nat_of_digits [a, b] + nat_of_digits [c, d]) mod 100 = nat_of_digits [c, d]"
    by simp_all
  then show ?thesis
    by (simp add: pad4_def n pad2_digits assms)
qed

lemma is_iso_date_isoformat:
  assumes "is_iso_date s"
  shows "\<exists>y m d. valid_date (y, m, d) \<and> s = isoformat (y, m, d)"
proof -
  from assms obtain y1 y2 y3 y4 m1 m2 d1 d2 where
    s: "s = [y1, y2, y3, y4, CHR ''-'', m1, m2, CHR ''-'', d1, d2]"
    and dg: "is_digit y1" "is_digit y2" "is_digit y3" "is_digit y4" "is_digit m1" "is_digit m2"
      "is_digit d1" "is_digit d2"
    and v: "valid_date (nat_of_digits [y1, y2, y3, y4], nat_of_digits [m1, m2], nat_of_digits [d1, d2])"
    unfolding is_iso_date_def
    by (auto split: list.splits)
  have "s = isoformat (nat_of_digits [y1, y2, y3, y4], nat_of_digits [m1, m2], nat_of_digits [d1, d2])"
    by (simp add: s pad4_digits pad2_digits dg)
  with v show ?thesis by blast
qed

lemma is_iso_date_strptime: "is_iso_date s \<Longrightarrow> \<not> isl (strptime s)"
  by (auto dest!: is_iso_date_isoformat simp: strptime_isoformat simp del: isoformat.simps valid_date.simps)

subsection \<open>\<^verbatim>\<open>add_expense\<close>: rejected arguments\<close>

lemma strptime_error: "strptime s = Inl e \<Longrightarrow> is_ValueError e"
  by (auto simp: strptime_def split: list.splits prod.splits if_splits)

lemma strip_Nil [simp]: "strip [] = []"
  by (simp add: strip_def)

text \<open>What is left of the body of \<^verbatim>\<open>add_expense\<close> once the arguments are accepted.\<close>

lemma add_expense_body_valid:
  assumes "py_float amount = Inr f" and "\<not> pf_le f (Fin 0)" and "strip c \<noteq> []"
    and "date = PNone \<or> (\<exists>s. date = PStr s \<and> \<not> isl (strptime s))"
  shows "add_expense_body today t amount (PStr c) date =
     (case py_getitem (data t) ''expenses'' of
        Inl e \<Rightarrow> (Inl e, t)
      | Inr l \<Rightarrow>
          (case py_append l (new_expense today f c date) of
             Inl e \<Rightarrow> (Inl e, t)
           | Inr l' \<Rightarrow>
               (case py_setitem (data t) ''expenses'' l' of
                  Inl e \<Rightarrow> (Inl e, t)
                | Inr d' \<Rightarrow>
                    (case medium t d' of
                       Written \<Rightarrow> (Inr True, t\<lparr>data := d', disk := Document d'\<rparr>)
                     | Fails e x \<Rightarrow> (Inl e, t\<lparr>data := d', disk := x\<rparr>)))))"
proof -
  from assms(3) have c: "c \<noteq> []" by auto
  from assms(4) have "(if date = PNone then Inr (PStr today)
      else (case py_strptime date of Inl e \<Rightarrow> Inl e | Inr parsed \<Rightarrow> Inr date))
      = (Inr (if date = PNone then PStr today else date) :: exn + pyval)"
    by (auto split: sum.splits)
  with assms(1-3) c show ?thesis
    unfolding add_expense_body_def new_expense_def
    by (simp add: save_data_def split: sum.splits save_outcome.splits)
qed

lemma add_expense_accepted:
  assumes "py_float amount = Inr f" and "\<not> pf_le f (Fin 0)" and "strip c \<noteq> []"
    and "date = PNone \<or> (\<exists>s. date = PStr s \<and> \<not> isl (strptime s))"
    and "data t = PDict kvs" and "map_of kvs ''expenses'' = Some (PList es)"
  shows "add_expense today t amount (PStr c) date =
     (case medium t (PDict (AList.update ''expenses'' (PList (es @ [new_expense today f c date])) kvs)) of
        Written \<Rightarrow>
          (Inr True,
           t\<lparr>data := PDict (AList.update ''expenses'' (PList (es @ [new_expense today f c date])) kvs),
             disk := Document (PDict (AList.update ''expenses'' (PList (es @ [new_expense today f c date])) kvs))\<rparr>)
      | Fails e x \<Rightarrow>
          (Inl (if is_ValueError e then InvalidExpense else e),
           t\<lparr>data := PDict (AList.update ''expenses'' (PList (es @ [new_expense today f c date])) kvs),
             disk := x\<rparr>))"
  unfolding add_expense_def add_expense_body_valid [OF assms(1-4)]
  using assms(5,6) by (simp split: save_outcome.splits)

lemma add_expense_refused:
  assumes "date = PNone \<or> (\<exists>s. date = PStr s)"
    and "(case py_float amount of Inl e \<Rightarrow> True | Inr f \<Rightarrow> pf_le f (Fin 0)) \<or> strip c = []
         \<or> (case date of PStr s \<Rightarrow> isl (strptime s) | other \<Rightarrow> False)"
  shows "add_expense today t amount (PStr c) date =
    (Inl (case py_float amount of
            Inl e \<Rightarrow> if is_ValueError e then InvalidExpense else e
          | Inr f \<Rightarrow> InvalidExpense), t)"
proof (cases "py_float amount")
  case (Inl e)
  then show ?thesis by (simp add: add_expense_def add_expense_body_def)
next
  case (Inr f)
  show ?thesis
  proof (cases "pf_le f (Fin 0) \<or> strip c = []")
    case True
    with Inr show ?thesis by (auto simp: add_expense_def add_expense_body_def)
  next
    case False
    with assms(2) Inr obtain s where s: "date = PStr s" "isl (strptime s)"
      by (auto split: pyval.splits)
    then obtain e where e: "strptime s = Inl e" by (cases "strptime s") auto
    with False Inr s strptime_error [OF e] show ?thesis
      by (auto simp: add_expense_def add_expense_body_def)
  qed
qed

text \<open>
  An amount that \<^verbatim>\<open>float\<close> refuses by type, such as \<^verbatim>\<open>None\<close>, raises \<^verbatim>\<open>TypeError\<close> from
  \<^verbatim>\<open>add_expense\<close>, whose handler names \<^verbatim>\<open>ValueError\<close> only; \<^verbatim>\<open>set_budget\<close>, whose handler
  names both, turns it into \<open>InvalidBudget\<close>.
\<close>

lemma add_expense_type_error:
  "add_expense today t PNone category date = (Inl TypeError, t)
   \<and> set_budget t PNone = (Inl InvalidBudget, t)"
  by (simp add: add_expense_def add_expense_body_def set_budget_def set_budget_body_def)

text \<open>
  C3, as the code has it. Take an amount on which \<^verbatim>\<open>float\<close> returns or raises
  \<^verbatim>\<open>ValueError\<close> (a float, a string, an \<^verbatim>\<open>int\<close> in the range of a float), a category string,
  and a date that is absent, or is a string in the form \<^verbatim>\<open>YYYY-MM-DD\<close> naming a real date, or
  is a string that \<^verbatim>\<open>strptime\<close> rejects. The arguments are refused when \<^verbatim>\<open>float(amount)\<close>
  raises or gives a value that is at most 0, or the category is empty once stripped, or
  the date string is not a real date in the form \<^verbatim>\<open>YYYY-MM-DD\<close>; positive infinity and NaN
  are accepted as amounts. Refused arguments fail with \<open>InvalidExpense\<close> and leave the
  tracker unchanged, whatever its state. On a ledger that holds a list of expenses,
  \<^verbatim>\<open>add_expense\<close> fails with \<open>InvalidExpense\<close> exactly when the arguments are refused or
  writing the new state raises \<^verbatim>\<open>ValueError\<close>.
\<close>

theorem add_expense_invalid:
  "\<forall>e. py_float amount = Inl e \<longrightarrow> is_ValueError e \<Longrightarrow>
   date = PNone \<or> (\<exists>s. date = PStr s \<and> (is_iso_date s \<or> isl (strptime s))) \<Longrightarrow>
   ((case py_float amount of Inl e \<Rightarrow> True | Inr f \<Rightarrow> pf_le f (Fin 0)) \<or> strip c = []
      \<or> (case date of PStr s \<Rightarrow> \<not> is_iso_date s | other \<Rightarrow> False)
    \<longrightarrow> add_expense today t amount (PStr c) date = (Inl InvalidExpense, t))
   \<and> (data t = PDict kvs \<and> map_of kvs ''expenses'' = Some (PList es) \<longrightarrow>
        (fst (add_expense today t amount (PStr c) date) = Inl InvalidExpense)
          = (case py_float amount of
               Inl e \<Rightarrow> True
             | Inr f \<Rightarrow>
                 pf_le f (Fin 0) \<or> strip c = []
                 \<or> (case date of PStr s \<Rightarrow> \<not> is_iso_date s | other \<Rightarrow> False)
                 \<or> (case medium t (PDict (AList.update ''expenses''
                                      (PList (es @ [new_expense today f c date])) kvs)) of
                      Written \<Rightarrow> False
                    | Fails e x \<Rightarrow> is_ValueError e)))"
proof -
  assume a: "\<forall>e. py_float amount = Inl e \<longrightarrow> is_ValueError e"
    and d: "date = PNone \<or> (\<exists>s. date = PStr s \<and> (is_iso_date s \<or> isl (strptime s)))"
  let ?bad = "(case date of PStr s \<Rightarrow> \<not> is_iso_date s | other \<Rightarrow> False)"
  let ?ref = "(case py_float amount of Inl e \<Rightarrow> True | Inr f \<Rightarrow> pf_le f (Fin 0)) \<or> strip c = [] \<or> ?bad"
  from d have bad: "?bad = (case date of PStr s \<Rightarrow> isl (strptime s) | other \<Rightarrow> False)"
    by (auto dest: is_iso_date_strptime)
  from d have d': "date = PNone \<or> (\<exists>s. date = PStr s)" by auto
  have refused: "add_expense today t amount (PStr c) date = (Inl InvalidExpense, t)" if r: ?ref
  proof -
    from r have "(case py_float amount of Inl e \<Rightarrow> True | Inr f \<Rightarrow> pf_le f (Fin 0)) \<or> strip c = []
         \<or> (case date of PStr s \<Rightarrow> isl (strptime s) | other \<Rightarrow> False)"
      unfolding bad .
    from add_expense_refused [OF d' this, of today t] a show ?thesis
      by (cases "py_float amount") simp_all
  qed
  have iff: "(fst (add_expense today t amount (PStr c) date) = Inl InvalidExpense)
          = (case py_float amount of
               Inl e \<Rightarrow> True
             | Inr f \<Rightarrow>
                 pf_le f (Fin 0) \<or> strip c = [] \<or> ?bad
                 \<or> (case medium t (PDict (AList.update ''expenses''
                                      (PList (es @ [new_expense today f c date])) kvs)) of
                      Written \<Rightarrow> False
                    | Fails e x \<Rightarrow> is_ValueError e))"
    if k: "data t = PDict kvs" "map_of kvs ''expenses'' = Some (PList es)"
  proof (cases ?ref)
    case True
    from refused [OF True] True show ?thesis
      by (cases "py_float amount") auto
  next
    case False
    then obtain f where f: "py_float amount = Inr f" "\<not> pf_le f (Fin 0)" "strip c \<noteq> []"
      by (cases "py_float amount") auto
    from False d bad have dd: "date = PNone \<or> (\<exists>s. date = PStr s \<and> \<not> isl (strptime s))"
      by auto
    from False have nb: "\<not> ?bad" by simp
    show ?thesis
      unfolding add_expense_accepted [OF f dd k]
      using f nb
      by (cases "medium t (PDict (AList.update ''expenses'' (PList (es @ [new_expense today f c date])) kvs))")
        (auto simp: InvalidExpense_def)
  qed
  from refused iff show ?thesis by blast
qed

text \<open>The theorem at a negative amount, a blank category, the 32nd of January and a valid call.\<close>

theorem add_expense_invalid_witness:
  "add_expense ''2024-05-05'' fresh_tracker (PFloat (Fin (- 50))) (PStr ''Food'') PNone
     = (Inl InvalidExpense, fresh_tracker)
   \<and> add_expense ''2024-05-05'' fresh_tracker (PFloat (Fin 50)) (PStr ''  '') PNone
     = (Inl InvalidExpense, fresh_tracker)
   \<and> add_expense ''2024-05-05'' fresh_tracker (PFloat (Fin 50)) (PStr ''Food'') (PStr ''2024-01-32'')
     = (Inl InvalidExpense, fresh_tracker)
   \<and> fst (add_expense ''2024-05-05'' fresh_tracker (PFloat (Fin 50)) (PStr ''Food'') (PStr ''2024-01-15''))
       \<noteq> Inl InvalidExpense"
proof -
  have s: "isl (strptime ''2024-01-32'')" "is_iso_date ''2024-01-15''" "\<not> is_iso_date ''2024-01-32''"
    "strip ''  '' = []" "strip ''Food'' = ''Food''"
    by code_simp+
  have k: "data fresh_tracker = PDict [(''budget'', PFloat (Fin 0)), (''expenses'', PList [])]"
    "map_of [(''budget'', PFloat (Fin 0)), (''expenses'', PList [])] ''expenses'' = Some (PList [])"
    by (simp_all add: fresh_tracker_def default_data_def)
  have m: "medium fresh_tracker x = Written" for x
    by (simp add: fresh_tracker_def)
  note spec = add_expense_invalid [where today = "''2024-05-05''" and t = fresh_tracker
      and kvs = "[(''budget'', PFloat (Fin 0)), (''expenses'', PList [])]" and es = "[]"]
  have r1: "add_expense ''2024-05-05'' fresh_tracker (PFloat (Fin (- 50))) (PStr ''Food'') PNone
     = (Inl InvalidExpense, fresh_tracker)"
    using spec [where amount = "PFloat (Fin (- 50))" and date = PNone and c = "''Food''", THEN conjunct1]
    by (simp add: pf_le_def)
  have r2: "add_expense ''2024-05-05'' fresh_tracker (PFloat (Fin 50)) (PStr ''  '') PNone
     = (Inl InvalidExpense, fresh_tracker)"
    using spec [where amount = "PFloat (Fin 50)" and date = PNone and c = "''  ''", THEN conjunct1]
    by (simp add: s)
  have r3: "add_expense ''2024-05-05'' fresh_tracker (PFloat (Fin 50)) (PStr ''Food'') (PStr ''2024-01-32'')
     = (Inl InvalidExpense, fresh_tracker)"
    using spec [where amount = "PFloat (Fin 50)" and date = "PStr ''2024-01-32''" and c = "''Food''",
        THEN conjunct1]
    by (simp add: s)
  have r4: "fst (add_expense ''2024-05-05'' fresh_tracker (PFloat (Fin 50)) (PStr ''Food'') (PStr ''2024-01-15''))
       \<noteq> Inl InvalidExpense"
    using spec [where amount = "PFloat (Fin 50)" and date = "PStr ''2024-01-15''" and c = "''Food''",
        THEN conjunct2] k
    by (simp add: s m pf_le_def)
  from r1 r2 r3 r4 show ?thesis by simp
qed

text \<open>
  C3 as stated fails. An amount of positive infinity, or NaN, is not a finite number, yet
  the call returns \<^verbatim>\<open>True\<close> and the expense is recorded. And where the file cannot be
  written because its path holds a NUL character, \<^verbatim>\<open>open\<close> raises \<^verbatim>\<open>ValueError\<close> inside the
  \<^verbatim>\<open>try\<close>: a call with valid arguments then fails with \<open>InvalidExpense\<close>, and the expense is
  in the list after the failure.
\<close>

theorem add_expense_accepts_infinity:
  "fst (add_expense ''2024-05-05'' fresh_tracker (PFloat PInf) (PStr ''Food'') (PStr ''2024-01-15''))
     = Inr True
   \<and> fst (add_expense ''2024-05-05'' fresh_tracker (PFloat NaN) (PStr ''Food'') (PStr ''2024-01-15''))
     = Inr True
   \<and> data (snd (add_expense ''2024-05-05'' fresh_tracker (PFloat PInf) (PStr ''Food'') (PStr ''2024-01-15'')))
      = PDict [(''budget'', PFloat (Fin 0)),
               (''expenses'', PList [PDict [(''amount'', PFloat PInf), (''category'', PStr ''Food''),
                                            (''date'', PStr ''2024-01-15'')]])]
   \<and> add_expense ''2024-05-05''
        \<lparr>data = default_data, disk = Absent, medium = (\<lambda>v. Fails (ValueError ''embedded null byte'') Absent)\<rparr>
        (PFloat (Fin 50)) (PStr ''Food'') (PStr ''2024-01-15'')
      = (Inl InvalidExpense,
         \<lparr>data = PDict [(''budget'', PFloat (Fin 0)),
               (''expenses'', PList [PDict [(''amount'', PFloat (Fin 50)), (''category'', PStr ''Food''),
                                            (''date'', PStr ''2024-01-15'')]])],
          disk = Absent, medium = (\<lambda>v. Fails (ValueError ''embedded null byte'') Absent)\<rparr>)"
proof -
  have s: "strptime ''2024-01-15'' = Inr (2024, 1, 15)" "strip ''Food'' = ''Food''"
    by code_simp+
  show ?thesis
    by (simp add: add_expense_def add_expense_body_def s pf_le_def save_data_def default_data_def
        fresh_tracker_def Let_def)
qed

subsection \<open>The budget over sequences of calls\<close>

lemma set_budget_keeps_budget_not_negative:
  "budget_not_negative t \<Longrightarrow> budget_not_negative (snd (set_budget t v))"
proof -
  assume b: "budget_not_negative t"
  then obtain kvs where d: "data t = PDict kvs"
    by (cases "data t") (auto simp: budget_not_negative_def)
  show ?thesis
  proof (cases "case py_float v of Inl e \<Rightarrow> True | Inr f \<Rightarrow> pf_lt f (Fin 0)")
    case True
    with b show ?thesis by (simp add: set_budget_refused)
  next
    case False
    then obtain f where f: "py_float v = Inr f" "\<not> pf_lt f (Fin 0)"
      by (cases "py_float v") auto
    show ?thesis
      unfolding set_budget_accepted [OF d f]
      using f(2)
      by (cases "medium t (PDict (AList.update ''budget'' (PFloat f) kvs))")
        (simp_all add: budget_not_negative_def map_of_update_same)
  qed
qed

lemma add_expense_body_data:
  "add_expense_body today t amount category date = (r, t') \<Longrightarrow>
   data t' = data t \<or> (\<exists>kvs l. data t = PDict kvs \<and> data t' = PDict (AList.update ''expenses'' l kvs))"
  unfolding add_expense_body_def
  by (cases "data t")
     (auto simp: save_data_def Let_def split: sum.splits if_splits save_outcome.splits)

lemma add_expense_keeps_budget_not_negative:
  "budget_not_negative t \<Longrightarrow> budget_not_negative (snd (add_expense today t amount category date))"
proof -
  assume b: "budget_not_negative t"
  obtain r t' where rt: "add_expense_body today t amount category date = (r, t')"
    by (cases "add_expense_body today t amount category date")
  from add_expense_body_data [OF rt] b have "budget_not_negative t'"
    by (auto simp: budget_not_negative_def map_of_update_other)
  with rt show ?thesis
    by (cases r) (auto simp: add_expense_def)
qed

lemma run_keeps_budget_not_negative:
  "budget_not_negative t \<Longrightarrow> budget_not_negative (run t calls)"
  unfolding run_def
proof (induction calls arbitrary: t)
  case Nil
  then show ?case by simp
next
  case (Cons c calls)
  have "budget_not_negative (perform t c)"
    using Cons.prems
    by (cases c) (simp_all add: set_budget_keeps_budget_not_negative add_expense_keeps_budget_not_negative)
  then show ?case using Cons.IH by simp
qed

text \<open>
  C4, as the code has it. If the budget of a tracker is a number that is not below 0, it
  stays so through every sequence of \<^verbatim>\<open>set_budget\<close> and \<^verbatim>\<open>add_expense\<close> calls, whatever they
  return or raise. A tracker constructed from a missing, empty, unreadable or non-JSON
  file starts in the default state, so its budget is never below 0. (The budget can become
  NaN, which is neither below 0 nor at least 0.)
\<close>

theorem budget_stays_not_negative:
  "(budget_not_negative t \<longrightarrow> budget_not_negative (run t calls))
   \<and> (c = Absent \<or> c = Empty \<or> c = Unreadable \<or> c = Malformed \<longrightarrow>
        (\<exists>t0. init c w = Inr t0 \<and> data t0 = default_data \<and> budget_not_negative (run t0 calls)))"
proof -
  have d: "budget_not_negative \<lparr>data = default_data, disk = c, medium = w\<rparr>"
    by (simp add: budget_not_negative_def default_data_def)
  have "c = Absent \<or> c = Empty \<or> c = Unreadable \<or> c = Malformed \<Longrightarrow>
      init c w = Inr \<lparr>data = default_data, disk = c, medium = w\<rparr>"
    by (auto simp: init_def load_data_def load_body_def)
  with d show ?thesis
    by (auto simp: run_keeps_budget_not_negative)
qed

text \<open>The theorem on a fresh tracker: the budget is set, an expense added, and a negative
  budget refused.\<close>

theorem budget_stays_not_negative_witness:
  "budget_not_negative (run fresh_tracker
      [SetBudget (PFloat (Fin 1000)), AddExpense ''2024-05-05'' (PFloat (Fin 50)) (PStr ''Food'') PNone,
       SetBudget (PFloat (Fin (- 1)))])
   \<and> py_getitem (data (run fresh_tracker
      [SetBudget (PFloat (Fin 1000)), AddExpense ''2024-05-05'' (PFloat (Fin 50)) (PStr ''Food'') PNone,
       SetBudget (PFloat (Fin (- 1)))])) ''budget'' = Inr (PFloat (Fin 1000))
   \<and> (\<exists>t0. init Absent (\<lambda>v. Written) = Inr t0 \<and> data t0 = default_data
         \<and> budget_not_negative (run t0 [SetBudget (PFloat (Fin 1000))]))"
proof -
  have s: "strip ''Food'' = ''Food''" by code_simp
  have b: "budget_not_negative fresh_tracker"
    by (simp add: budget_not_negative_def default_data_def fresh_tracker_def)
  have r: "py_getitem (data (run fresh_tracker
      [SetBudget (PFloat (Fin 1000)), AddExpense ''2024-05-05'' (PFloat (Fin 50)) (PStr ''Food'') PNone,
       SetBudget (PFloat (Fin (- 1)))])) ''budget'' = Inr (PFloat (Fin 1000))"
    by (simp add: run_def set_budget_def set_budget_body_def add_expense_def add_expense_body_def
        save_data_def default_data_def fresh_tracker_def pf_le_def s Let_def)
  show ?thesis
    using budget_stays_not_negative [of fresh_tracker
        "[SetBudget (PFloat (Fin 1000)), AddExpense ''2024-05-05'' (PFloat (Fin 50)) (PStr ''Food'') PNone,
          SetBudget (PFloat (Fin (- 1)))]" Empty "\<lambda>v. Written"]
      budget_stays_not_negative [of fresh_tracker "[SetBudget (PFloat (Fin 1000))]" Absent "\<lambda>v. Written"]
      b r
    by simp
qed

text \<open>
  C4 as stated fails: a file holding \<^verbatim>\<open>{"budget": -5, "expenses": []}\<close> is loaded as it is,
  and the budget is then -5, also after a later \<^verbatim>\<open>add_expense\<close>. And on a fresh tracker
  \<^verbatim>\<open>set_budget\<close> stores NaN, which is not at least 0.
\<close>

theorem loaded_budget_negative:
  "init (Document (PDict [(''budget'', PInt (- 5)), (''expenses'', PList [])])) (\<lambda>v. Written)
     = Inr \<lparr>data = PDict [(''budget'', PInt (- 5)), (''expenses'', PList [])],
            disk = Document (PDict [(''budget'', PInt (- 5)), (''expenses'', PList [])]),
            medium = (\<lambda>v. Written)\<rparr>
   \<and> py_getitem (data (run \<lparr>data = PDict [(''budget'', PInt (- 5)), (''expenses'', PList [])],
            disk = Document (PDict [(''budget'', PInt (- 5)), (''expenses'', PList [])]),
            medium = (\<lambda>v. Written)\<rparr> [AddExpense ''2024-05-05'' (PFloat (Fin 50)) (PStr ''Food'') PNone]))
        ''budget'' = Inr (PInt (- 5))
   \<and> py_getitem (data (run fresh_tracker [SetBudget (PFloat NaN)])) ''budget'' = Inr (PFloat NaN)
   \<and> \<not> pf_le (Fin 0) NaN"
proof -
  have s: "strip ''Food'' = ''Food''" by code_simp
  show ?thesis
    by (simp add: init_def load_data_def load_body_def run_def add_expense_def add_expense_body_def
        set_budget_def set_budget_body_def default_data_def fresh_tracker_def save_data_def pf_le_def s Let_def)
qed

subsection \<open>Numbers beyond the range of a double\<close>

text \<open>
  The theorem at the strings of the tests, at NaN, and at numbers beyond the range of a
  double: \<^verbatim>\<open>1e309\<close> is read as infinity and \<^verbatim>\<open>-1e-324\<close> as \<^verbatim>\<open>-0.0\<close>, and both are at least 0.
\<close>

theorem validate_amount_total_witness:
  "validate_amount (PStr ''50.5'') = Inr (True, PFloat (Fin (101 / 2)))
   \<and> validate_amount (PStr ''-50.5'') = Inr (False, PInt 0)
   \<and> validate_amount (PStr ''invalid'') = Inr (False, PInt 0)
   \<and> validate_amount (PStr ''nan'') = Inr (False, PInt 0)
   \<and> validate_amount (PStr ''1e309'') = Inr (True, PFloat PInf)
   \<and> validate_amount (PStr ''-1e-324'') = Inr (True, PFloat NZero)
   \<and> validate_amount (PStr ''0'') = Inr (True, PFloat (Fin 0))
   \<and> fst (add_expense ''2024-05-05'' fresh_tracker (PFloat (Fin 0)) (PStr ''Food'') PNone)
       = Inl InvalidExpense"
proof -
  have r1: "round_mag (101 / 2) = Fin (101 / 2)"
    using round_mag_grid [of 101 "- 1"] by (simp add: power_int_minus)
  have r2: "round_mag (10 ^ 309) = PInf"
    using round_mag_eval [of 1026 "10 ^ 309"]
    by (simp add: power_int_minus nearest_even_numeral_fraction nearest_even_numeral Let_def)
  have r3: "round_mag (1 / 10 ^ 324) = Fin 0"
    using round_mag_tiny [of "1 / 10 ^ 324"]
    by (simp add: power_int_minus nearest_even_numeral_fraction divide_simps)
  have p1: "take_sign (float_strip ''50.5'') = (False, ''50.5'')" "map lower ''50.5'' \<noteq> ''inf''"
    "map lower ''50.5'' \<noteq> ''infinity''" "map lower ''50.5'' \<noteq> ''nan''"
    "parse_number ''50.5'' = Some (101 / 2)"
    by code_simp+
  have p2: "take_sign (float_strip ''-50.5'') = (True, ''50.5'')"
    by code_simp
  have p3: "take_sign (float_strip ''1e309'') = (False, ''1e309'')" "map lower ''1e309'' \<noteq> ''inf''"
    "map lower ''1e309'' \<noteq> ''infinity''" "map lower ''1e309'' \<noteq> ''nan''"
    "parse_number ''1e309'' = Some (10 ^ 309)"
    by code_simp+
  have p4: "take_sign (float_strip ''-1e-324'') = (True, ''1e-324'')" "map lower ''1e-324'' \<noteq> ''inf''"
    "map lower ''1e-324'' \<noteq> ''infinity''" "map lower ''1e-324'' \<noteq> ''nan''"
    "parse_number ''1e-324'' = Some (1 / 10 ^ 324)"
    by code_simp+
  have f1: "float_of_string ''50.5'' = Some (Fin (101 / 2))"
    using float_of_string_number [OF p1] by (simp only: r1 if_False)
  have "float_of_string ''-50.5'' = Some (pneg (Fin (101 / 2)))"
    using float_of_string_number [OF p2 p1(2-5)] by (simp only: r1 if_True)
  then have f2: "float_of_string ''-50.5'' = Some (Fin (- (101 / 2)))" by simp
  have f3: "float_of_string ''1e309'' = Some PInf"
    using float_of_string_number [OF p3] by (simp only: r2 if_False)
  have "float_of_string ''-1e-324'' = Some (pneg (Fin 0))"
    using float_of_string_number [OF p4] by (simp only: r3 if_True)
  then have f4: "float_of_string ''-1e-324'' = Some NZero" by simp
  have f5: "float_of_string ''invalid'' = None" "float_of_string ''nan'' = Some NaN"
    by code_simp+
  show ?thesis
    using validate_amount_total [of "''50.5''" "''2024-05-05''" fresh_tracker "PStr ''Food''" PNone]
      validate_amount_total [of "''-50.5''"] validate_amount_total [of "''invalid''"]
      validate_amount_total [of "''nan''"] validate_amount_total [of "''1e309''"]
      validate_amount_total [of "''-1e-324''"]
    by (simp add: f1 f2 f3 f4 f5 pf_le_def)
qed

text \<open>
  An \<^verbatim>\<open>int\<close> too large for a float is refused by \<^verbatim>\<open>float\<close> with \<^verbatim>\<open>OverflowError\<close>, which
  neither handler names: it leaves \<^verbatim>\<open>set_budget\<close> and \<^verbatim>\<open>add_expense\<close> as it is.
\<close>

lemma int_to_float_overflow: "int_to_float (10 ^ 309) = Inl OverflowError"
proof -
  have "round_mag (of_int (10 ^ 309)) = PInf"
    using round_mag_eval [of 1026 "of_int (10 ^ 309)"]
    by (simp add: power_int_minus nearest_even_numeral_fraction nearest_even_numeral Let_def)
  then show ?thesis
    by (simp add: int_to_float_def round_double_def)
qed

lemma set_budget_overflow:
  "set_budget t (PInt (10 ^ 309)) = (Inl OverflowError, t)
   \<and> add_expense today t (PInt (10 ^ 309)) category date = (Inl OverflowError, t)"
  using int_to_float_overflow
  by (simp add: set_budget_def set_budget_body_def add_expense_def add_expense_body_def)

end
